theory Spec2Isabelle
  imports Complex_Main "HOL-Library.AList" "HOL-Library.List_Lexorder" "HOL-Library.Monad_Syntax"
begin

section \<open>Python values\<close>

text \<open>
  A Python \<open>str\<close> is a sequence of Unicode code points, so \<open>len\<close> counts code points
  and comparison is lexicographic on them.  A \<open>datetime\<close> is a number of microseconds.
  A \<open>dict\<close> keeps insertion order: it is an association list with one entry per key,
  written with \<open>AList.update\<close> (assignment: in place for a known key, at the end for a
  new one), \<open>AList.delete\<close> and \<open>map_of\<close>.  A function whose result is an
  \<open>option\<close> returns \<open>None\<close> where the Python raises.  Python floats are read as
  real numbers, within the range of floats: a power beyond the largest float raises
  \<open>OverflowError\<close>.
\<close>

type_synonym pystr = "nat list"
type_synonym datetime = int

definition py_isspace :: "nat \<Rightarrow> bool" where
  "py_isspace c \<longleftrightarrow>
     c \<in> {9, 10, 11, 12, 13, 28, 29, 30, 31, 32, 133, 160, 5760, 8232, 8233, 8239, 8287, 12288}
     \<or> (8192 \<le> c \<and> c \<le> 8202)"

text \<open>\<open>s.split()\<close>: the maximal runs of characters that are not whitespace.\<close>

fun py_split_from :: "pystr \<Rightarrow> pystr \<Rightarrow> pystr list" where
  "py_split_from cur [] = (if cur = [] then [] else [cur])"
| "py_split_from cur (c # cs) =
     (if py_isspace c then (if cur = [] then py_split_from [] cs else cur # py_split_from [] cs)
      else py_split_from (cur @ [c]) cs)"

definition py_split :: "pystr \<Rightarrow> pystr list" where
  "py_split s = py_split_from [] s"

text \<open>\<open>s.replace(a, b)\<close> for one-character \<open>a\<close> and \<open>b\<close>.\<close>

definition py_replace_char :: "nat \<Rightarrow> nat \<Rightarrow> pystr \<Rightarrow> pystr" where
  "py_replace_char a b s = map (\<lambda>c. if c = a then b else c) s"

text \<open>\<open>xs[:n]\<close>: a negative \<open>n\<close> counts from the end.\<close>

definition py_prefix :: "int \<Rightarrow> 'a list \<Rightarrow> 'a list" where
  "py_prefix n xs = (if 0 \<le> n then take (nat n) xs else take (nat (int (length xs) + n)) xs)"

section \<open>Memory (agents/memory.py)\<close>

datatype MemoryType = EVENT | CONVERSATION | OBSERVATION | EMOTION | SOCIAL | REFLECTION

definition all_memory_types :: "MemoryType list" where
  "all_memory_types = [EVENT, CONVERSATION, OBSERVATION, EMOTION, SOCIAL, REFLECTION]"

record Memory =
  mem_id :: pystr
  mem_type :: MemoryType
  content :: pystr
  importance :: real
  timestamp :: "datetime option"
  created_at :: datetime
  related_agents :: "pystr list"
  location :: "pystr option"
  emotion :: "pystr option"
  mem_keywords :: "pystr set"
  access_count :: int
  last_accessed :: "datetime option"

text \<open>The tokens of a text: \<open>text.replace("\<dots>", " ").replace("\<dots>", " ").split()\<close> for the
  full-width comma (65292) and the ideographic full stop (12290), kept when they have at
  least two characters.\<close>

definition extract_keywords :: "pystr \<Rightarrow> pystr set" where
  "extract_keywords text =
     set (filter (\<lambda>w. 2 \<le> length w)
            (py_split (py_replace_char 12290 32 (py_replace_char 65292 32 text))))"

text \<open>\<open>Memory.__post_init__\<close>, with the clock reading \<open>now\<close>.\<close>

definition post_init :: "datetime \<Rightarrow> Memory \<Rightarrow> Memory" where
  "post_init now m =
     (let m1 = (if timestamp m = None then m\<lparr>timestamp := Some now\<rparr> else m)
      in if mem_keywords m1 = {} then m1\<lparr>mem_keywords := extract_keywords (content m1)\<rparr> else m1)"

definition access :: "datetime \<Rightarrow> Memory \<Rightarrow> Memory" where
  "access now m = m\<lparr>access_count := access_count m + 1, last_accessed := Some now\<rparr>"

text \<open>The largest float, and \<open>b ** e\<close> on floats for a positive base: a result beyond
  the largest float raises \<open>OverflowError\<close> (one too small to represent is 0, without an
  error).\<close>

definition largest_float :: real where
  "largest_float = (2 ^ 53 - 1) * 2 ^ 971"

definition float_pow :: "real \<Rightarrow> real \<Rightarrow> real option" where
  "float_pow b e = (if largest_float < b powr e then None else Some (b powr e))"

definition get_recency_score :: "datetime \<Rightarrow> Memory \<Rightarrow> real option" where
  "get_recency_score now m =
     (let age_hours = (real_of_int (now - created_at m) / 1000000) / 3600
      in case float_pow 2.71828 (- age_hours / 24) of
           None \<Rightarrow> None
         | Some p \<Rightarrow> Some (max 0.01 (min 1.0 p)))"

definition get_relevance_score :: "Memory \<Rightarrow> pystr set \<Rightarrow> real" where
  "get_relevance_score m query_keywords =
     (if query_keywords = {} \<or> mem_keywords m = {} then 0.0
      else let intersection = card (mem_keywords m \<inter> query_keywords);
               union = card (mem_keywords m \<union> query_keywords)
           in if 0 < union then real intersection / real union else 0.0)"

text \<open>\<open>get_retrieval_score\<close> with its default weights 0.4, 0.3 and 0.3 (no caller
  passes others); \<open>query_keywords\<close> is \<open>None\<close> when the argument is left out.  It
  raises when \<open>get_recency_score\<close> does.\<close>

definition get_retrieval_score :: "datetime \<Rightarrow> pystr set option \<Rightarrow> Memory \<Rightarrow> real option" where
  "get_retrieval_score now query_keywords m =
     (let importance_score = importance m / 10.0
      in case get_recency_score now m of
           None \<Rightarrow> None
         | Some recency_score \<Rightarrow>
             (let relevance_score =
                    (case query_keywords of
                       None \<Rightarrow> 0.5
                     | Some qk \<Rightarrow> if qk = {} then 0.5 else get_relevance_score m qk)
              in Some (importance_score * 0.4 + recency_score * 0.3 + relevance_score * 0.3)))"

section \<open>MemoryManager (agents/memory.py)\<close>

record MemoryManager =
  max_memories :: int
  short_term_limit :: int
  importance_threshold :: real
  memories :: "(pystr \<times> Memory) list"
  by_type :: "(MemoryType \<times> pystr list) list"
  by_agent :: "(pystr \<times> pystr list) list"
  accumulated_importance :: real
  last_reflection_time :: "datetime option"

definition MemoryManager_init :: "int \<Rightarrow> int \<Rightarrow> real \<Rightarrow> MemoryManager" where
  "MemoryManager_init maxm stl thr =
     \<lparr>max_memories = maxm, short_term_limit = stl, importance_threshold = thr,
      memories = [], by_type = map (\<lambda>t. (t, [])) all_memory_types, by_agent = [],
      accumulated_importance = 0.0, last_reflection_time = None\<rparr>"

text \<open>The constructor's defaults: \<open>MemoryManager()\<close>.\<close>

definition MemoryManager_default :: MemoryManager where
  "MemoryManager_default = MemoryManager_init 200 20 3.0"

text \<open>One round of the loop over \<open>memory.related_agents\<close> in \<open>remove\<close>.\<close>

definition unindex_agent :: "pystr \<Rightarrow> pystr \<Rightarrow> (pystr \<times> pystr list) list \<Rightarrow> (pystr \<times> pystr list) list" where
  "unindex_agent memory_id agent_id idx =
     (case map_of idx agent_id of
        None \<Rightarrow> idx
      | Some ids \<Rightarrow> if memory_id \<in> set ids then AList.update agent_id (remove1 memory_id ids) idx
                   else idx)"

definition remove :: "MemoryManager \<Rightarrow> pystr \<Rightarrow> (MemoryManager \<times> bool) option" where
  "remove s memory_id =
     (case map_of (memories s) memory_id of
        None \<Rightarrow> Some (s, False)
      | Some memory \<Rightarrow> do {
          ids \<leftarrow> map_of (by_type s) (mem_type memory);
          let s1 = (if memory_id \<in> set ids
                    then s\<lparr>by_type := AList.update (mem_type memory) (remove1 memory_id ids) (by_type s)\<rparr>
                    else s);
          let s2 = s1\<lparr>by_agent := fold (unindex_agent memory_id) (related_agents memory) (by_agent s1)\<rparr>;
          Some (s2\<lparr>memories := AList.delete memory_id (memories s2)\<rparr>, True)
        })"

text \<open>The loop \<open>for memory in sorted_memories[:to_remove]: self.remove(memory.id)\<close>.\<close>

fun remove_each :: "MemoryManager \<Rightarrow> Memory list \<Rightarrow> MemoryManager option" where
  "remove_each s [] = Some s"
| "remove_each s (memory # rest) =
     (case remove s (mem_id memory) of
        None \<Rightarrow> None
      | Some (s', _) \<Rightarrow> remove_each s' rest)"

text \<open>The keys that \<open>sorted(values, key=lambda m: m.get_retrieval_score())\<close> computes,
  one for every memory, before it sorts; a key that raises ends the call.\<close>

fun score_each :: "datetime \<Rightarrow> Memory list \<Rightarrow> (Memory \<times> real) list option" where
  "score_each now [] = Some []"
| "score_each now (memory # rest) =
     (case get_retrieval_score now None memory of
        None \<Rightarrow> None
      | Some score \<Rightarrow>
          (case score_each now rest of
             None \<Rightarrow> None
           | Some scored \<Rightarrow> Some ((memory, score) # scored)))"

text \<open>\<open>sorted\<close> is stable and ascending, as \<open>sort_key\<close> is.\<close>

definition forget_least_important :: "datetime \<Rightarrow> MemoryManager \<Rightarrow> MemoryManager option" where
  "forget_least_important now s =
     (if memories s = [] then Some s
      else case score_each now (map snd (memories s)) of
             None \<Rightarrow> None
           | Some scored \<Rightarrow>
               (let sorted_memories = map fst (sort_key snd scored);
                    to_remove = max 1 (int (length sorted_memories) div 10)
                in remove_each s (py_prefix to_remove sorted_memories)))"

text \<open>One round of the loop over \<open>memory.related_agents\<close> in \<open>add\<close>.\<close>

definition index_agent :: "pystr \<Rightarrow> pystr \<Rightarrow> (pystr \<times> pystr list) list \<Rightarrow> (pystr \<times> pystr list) list" where
  "index_agent memory_id agent_id idx =
     (let idx1 = (if map_of idx agent_id = None then AList.update agent_id [] idx else idx)
      in case map_of idx1 agent_id of
           None \<Rightarrow> idx1
         | Some ids \<Rightarrow> AList.update agent_id (ids @ [memory_id]) idx1)"

definition add :: "datetime \<Rightarrow> MemoryManager \<Rightarrow> Memory \<Rightarrow> (MemoryManager \<times> pystr) option" where
  "add now s memory = do {
     s1 \<leftarrow> (if max_memories s \<le> int (length (memories s)) then forget_least_important now s
            else Some s);
     let s2 = s1\<lparr>memories := AList.update (mem_id memory) memory (memories s1)\<rparr>;
     ids \<leftarrow> map_of (by_type s2) (mem_type memory);
     let s3 = s2\<lparr>by_type := AList.update (mem_type memory) (ids @ [mem_id memory]) (by_type s2)\<rparr>;
     let s4 = s3\<lparr>by_agent := fold (index_agent (mem_id memory)) (related_agents memory) (by_agent s3)\<rparr>;
     Some (s4\<lparr>accumulated_importance := accumulated_importance s4 + importance memory\<rparr>,
           mem_id memory)
   }"

definition reset_accumulated_importance :: "datetime \<Rightarrow> MemoryManager \<Rightarrow> MemoryManager \<times> real" where
  "reset_accumulated_importance now s =
     (s\<lparr>accumulated_importance := 0.0, last_reflection_time := Some now\<rparr>,
      accumulated_importance s)"

text \<open>The memory that \<open>create_and_add\<close> builds: \<open>Memory(type=\<dots>, content=\<dots>, \<dots>)\<close>
  with the identifier \<open>new_id\<close> drawn for it, at the clock reading \<open>now\<close>.\<close>

definition new_memory ::
  "datetime \<Rightarrow> pystr \<Rightarrow> pystr \<Rightarrow> MemoryType \<Rightarrow> real \<Rightarrow> pystr list \<Rightarrow>
   pystr option \<Rightarrow> pystr option \<Rightarrow> datetime option \<Rightarrow> Memory" where
  "new_memory now new_id text memory_type imp related loc emo game_time =
     post_init now
       \<lparr>mem_id = new_id, mem_type = memory_type, content = text, importance = imp,
        timestamp = game_time, created_at = now, related_agents = related,
        location = loc, emotion = emo, mem_keywords = {}, access_count = 0,
        last_accessed = None\<rparr>"

definition create_and_add ::
  "datetime \<Rightarrow> pystr \<Rightarrow> MemoryManager \<Rightarrow> pystr \<Rightarrow> MemoryType \<Rightarrow> real \<Rightarrow> pystr list \<Rightarrow>
   pystr option \<Rightarrow> pystr option \<Rightarrow> datetime option \<Rightarrow> (MemoryManager \<times> Memory) option" where
  "create_and_add now new_id s text memory_type imp related loc emo game_time =
     (let memory = new_memory now new_id text memory_type imp related loc emo game_time
      in case add now s memory of None \<Rightarrow> None | Some (s', _) \<Rightarrow> Some (s', memory))"

definition clear :: "MemoryManager \<Rightarrow> MemoryManager" where
  "clear s = s\<lparr>memories := [], by_type := map (\<lambda>t. (t, [])) all_memory_types, by_agent := [],
              accumulated_importance := 0.0\<rparr>"

definition count :: "MemoryManager \<Rightarrow> nat" where
  "count s = length (memories s)"

text \<open>\<open>get\<close>: the memory found is accessed.\<close>

definition get :: "datetime \<Rightarrow> MemoryManager \<Rightarrow> pystr \<Rightarrow> MemoryManager \<times> Memory option" where
  "get now s memory_id =
     (case map_of (memories s) memory_id of
        None \<Rightarrow> (s, None)
      | Some memory \<Rightarrow>
          (s\<lparr>memories := AList.update memory_id (access now memory) (memories s)\<rparr>,
           Some (access now memory)))"

text \<open>\<open>sorted(values, key=created_at, reverse=True)[:limit]\<close>; a reversed sort is
  stable too.\<close>

definition retrieve_recent :: "MemoryManager \<Rightarrow> int \<Rightarrow> Memory list" where
  "retrieve_recent s limit =
     py_prefix limit (sort_key (\<lambda>m. - created_at m) (map snd (memories s)))"

text \<open>The loop of \<open>retrieve_relevant\<close> over \<open>self._memories.values()\<close>: it returns the
  entries of the dictionary after the loop and the list \<open>scored_memories\<close>, or raises
  when a score does.  The list holds the memory objects themselves, so it shows them as
  \<open>access\<close> left them.\<close>

fun score_all ::
  "datetime \<Rightarrow> pystr set \<Rightarrow> real \<Rightarrow> (pystr \<times> Memory) list \<Rightarrow>
   ((pystr \<times> Memory) list \<times> (Memory \<times> real) list) option" where
  "score_all now query_keywords min_score [] = Some ([], [])"
| "score_all now query_keywords min_score ((k, memory) # rest) =
     (case get_retrieval_score now (Some query_keywords) memory of
        None \<Rightarrow> None
      | Some score \<Rightarrow>
          (case score_all now query_keywords min_score rest of
             None \<Rightarrow> None
           | Some (entries, scored_memories) \<Rightarrow>
               if min_score \<le> score
               then Some ((k, access now memory) # entries,
                          (access now memory, score) # scored_memories)
               else Some ((k, memory) # entries, scored_memories)))"

definition retrieve_relevant ::
  "datetime \<Rightarrow> MemoryManager \<Rightarrow> pystr \<Rightarrow> int \<Rightarrow> real \<Rightarrow>
   (MemoryManager \<times> (Memory \<times> real) list) option" where
  "retrieve_relevant now s query limit min_score =
     (let query_keywords = extract_keywords query
      in case score_all now query_keywords min_score (memories s) of
           None \<Rightarrow> None
         | Some (entries, scored_memories) \<Rightarrow>
             Some (s\<lparr>memories := entries\<rparr>,
                   py_prefix limit (sort_key (\<lambda>x. - snd x) scored_memories)))"

section \<open>Consistent stores, sequences of calls and example stores\<close>

text \<open>\<open>self._by_type\<close> has a list for every \<open>MemoryType\<close>: the constructor and
  \<open>clear\<close> build it so, and \<open>self._by_type[memory.type]\<close> raises \<open>KeyError\<close>
  otherwise.\<close>

definition types_indexed :: "MemoryManager \<Rightarrow> bool" where
  "types_indexed s \<longleftrightarrow> list_all (\<lambda>t. map_of (by_type s) t \<noteq> None) all_memory_types"

text \<open>\<open>self._memories\<close> is a dictionary (one entry per key) and files every memory
  under its own \<open>id\<close>, as \<open>add\<close> does.\<close>

definition keys_ok :: "MemoryManager \<Rightarrow> bool" where
  "keys_ok s \<longleftrightarrow> distinct (map fst (memories s)) \<and> list_all (\<lambda>(k, m). mem_id m = k) (memories s)"


text \<open>At the clock reading \<open>now\<close> the recency of a memory can be computed (its
  \<open>created_at\<close> is not so far after the clock, some 710 days, that the power
  overflows), and so can the recency of every memory of a store.\<close>

definition recency_defined :: "datetime \<Rightarrow> Memory \<Rightarrow> bool" where
  "recency_defined now m \<longleftrightarrow> get_recency_score now m \<noteq> None"

definition scores_defined :: "datetime \<Rightarrow> MemoryManager \<Rightarrow> bool" where
  "scores_defined now s \<longleftrightarrow> list_all (recency_defined now) (map snd (memories s))"



fun add_all :: "MemoryManager \<Rightarrow> (datetime \<times> Memory) list \<Rightarrow> MemoryManager option" where
  "add_all s [] = Some s"
| "add_all s ((now, memory) # rest) =
     (case add now s memory of None \<Rightarrow> None | Some (s', _) \<Rightarrow> add_all s' rest)"

text \<open>A sequence of \<open>add\<close> and \<open>remove\<close> calls, and the importances it adds.\<close>

datatype store_op = Add datetime Memory | Remove pystr

fun run_ops :: "MemoryManager \<Rightarrow> store_op list \<Rightarrow> MemoryManager option" where
  "run_ops s [] = Some s"
| "run_ops s (Add now memory # rest) =
     (case add now s memory of None \<Rightarrow> None | Some (s', _) \<Rightarrow> run_ops s' rest)"
| "run_ops s (Remove memory_id # rest) =
     (case remove s memory_id of None \<Rightarrow> None | Some (s', _) \<Rightarrow> run_ops s' rest)"

fun op_clocks :: "store_op list \<Rightarrow> datetime list" where
  "op_clocks [] = []"
| "op_clocks (Add now memory # rest) = now # op_clocks rest"
| "op_clocks (Remove memory_id # rest) = op_clocks rest"

fun op_memories :: "store_op list \<Rightarrow> Memory list" where
  "op_memories [] = []"
| "op_memories (Add now memory # rest) = memory # op_memories rest"
| "op_memories (Remove memory_id # rest) = op_memories rest"

definition ops_scored :: "MemoryManager \<Rightarrow> store_op list \<Rightarrow> bool" where
  "ops_scored s ops \<longleftrightarrow>
     list_all (\<lambda>now. list_all (recency_defined now) (map snd (memories s) @ op_memories ops))
       (op_clocks ops)"

fun added_importance :: "store_op list \<Rightarrow> real" where
  "added_importance [] = 0"
| "added_importance (Add now memory # rest) = importance memory + added_importance rest"
| "added_importance (Remove memory_id # rest) = added_importance rest"

text \<open>An event memory recorded at time 0 with no text, and the default store after
  \<open>add\<close> of two of them, \<open>"a"\<close> and \<open>"b"\<close>, of importance 5.\<close>

definition example_memory :: "pystr \<Rightarrow> real \<Rightarrow> Memory" where
  "example_memory i imp =
     \<lparr>mem_id = i, mem_type = EVENT, content = [], importance = imp, timestamp = Some 0,
      created_at = 0, related_agents = [], location = None, emotion = None,
      mem_keywords = {}, access_count = 0, last_accessed = None\<rparr>"

definition store_ab :: MemoryManager where
  "store_ab =
     \<lparr>max_memories = 200, short_term_limit = 20, importance_threshold = 3.0,
      memories = [([97], example_memory [97] 5), ([98], example_memory [98] 5)],
      by_type = [(EVENT, [[97], [98]]), (CONVERSATION, []), (OBSERVATION, []), (EMOTION, []),
                 (SOCIAL, []), (REFLECTION, [])],
      by_agent = [], accumulated_importance = 10, last_reflection_time = None\<rparr>"

text \<open>A store of capacity 1 that is full: it holds \<open>"a"\<close>, of importance 9.\<close>

definition store_full :: MemoryManager where
  "store_full =
     \<lparr>max_memories = 1, short_term_limit = 20, importance_threshold = 3.0,
      memories = [([97], example_memory [97] 9)],
      by_type = [(EVENT, [[97]]), (CONVERSATION, []), (OBSERVATION, []), (EMOTION, []),
                 (SOCIAL, []), (REFLECTION, [])],
      by_agent = [], accumulated_importance = 9, last_reflection_time = None\<rparr>"

text \<open>The same store when its memory is dated 1000 days after time 0.\<close>

definition far_future_memory :: Memory where
  "far_future_memory = (example_memory [97] 9)\<lparr>created_at := 86400000000000\<rparr>"

definition store_far_future :: MemoryManager where
  "store_far_future = store_full\<lparr>memories := [([97], far_future_memory)]\<rparr>"



section \<open>Plans (agents/planning.py)\<close>

record PlanBlock =
  start_time :: pystr
  end_time :: pystr
  activity :: pystr
  block_location :: pystr

record DailyPlan =
  plan_date :: int
  broad_strokes :: "PlanBlock list"
  hourly_chunks :: "PlanBlock list"
  current_tasks :: "PlanBlock list"
  plan_created_at :: datetime

text \<open>\<open>t.strftime("%H:%M")\<close>: hour and minute of the day in two digits each, with a
  colon (58) between them.\<close>

definition two_digits :: "nat \<Rightarrow> pystr" where
  "two_digits n = [48 + n div 10, 48 + n mod 10]"

definition strftime_HM :: "datetime \<Rightarrow> pystr" where
  "strftime_HM t =
     two_digits (nat ((t div 3600000000) mod 24)) @ [58] @ two_digits (nat ((t div 60000000) mod 60))"

text \<open>The test \<open>block.start_time <= time_str < block.end_time\<close> on strings.\<close>

definition covers :: "pystr \<Rightarrow> PlanBlock \<Rightarrow> bool" where
  "covers time_str block \<longleftrightarrow> start_time block \<le> time_str \<and> time_str < end_time block"

text \<open>One of the three loops of \<open>get_current_block\<close>: \<open>None\<close> when the loop ends
  without returning.\<close>

fun first_covering :: "pystr \<Rightarrow> PlanBlock list \<Rightarrow> PlanBlock option" where
  "first_covering time_str [] = None"
| "first_covering time_str (block # rest) =
     (if start_time block \<le> time_str \<and> time_str < end_time block then Some block
      else first_covering time_str rest)"

definition get_current_block :: "DailyPlan \<Rightarrow> datetime \<Rightarrow> PlanBlock option" where
  "get_current_block plan current_time =
     (let time_str = strftime_HM current_time
      in case first_covering time_str (current_tasks plan) of
           Some task \<Rightarrow> Some task
         | None \<Rightarrow>
             (case first_covering time_str (hourly_chunks plan) of
                Some chunk \<Rightarrow> Some chunk
              | None \<Rightarrow> first_covering time_str (broad_strokes plan)))"

definition get_remaining_plan :: "DailyPlan \<Rightarrow> datetime \<Rightarrow> PlanBlock list" where
  "get_remaining_plan plan from_time =
     (let time_str = strftime_HM from_time
      in filter (\<lambda>block. time_str < end_time block) (broad_strokes plan))"

text \<open>Example: a day with the broad stroke 09:00-12:00 and the hourly chunk 09:00-10:00,
  and the time 09:30 of the first day.\<close>

definition block_9_12 :: PlanBlock where
  "block_9_12 = \<lparr>start_time = [48, 57, 58, 48, 48], end_time = [49, 50, 58, 48, 48],
                  activity = [119], block_location = []\<rparr>"

definition block_9_10 :: PlanBlock where
  "block_9_10 = \<lparr>start_time = [48, 57, 58, 48, 48], end_time = [49, 48, 58, 48, 48],
                  activity = [109], block_location = []\<rparr>"

definition example_plan :: DailyPlan where
  "example_plan = \<lparr>plan_date = 0, broad_strokes = [block_9_12], hourly_chunks = [block_9_10],
                    current_tasks = [], plan_created_at = 0\<rparr>"

definition half_past_nine :: datetime where
  "half_past_nine = (9 * 60 + 30) * 60000000"


section \<open>Agents (agents/models.py)\<close>

text \<open>ASCII text as a Python string, truth of an optional string (\<open>None\<close> and
  \<open>""\<close> are false), \<open>a or b\<close> on strings, and an optional string as an f-string
  prints it.\<close>

definition ascii :: "string \<Rightarrow> pystr" where
  "ascii cs = map of_char cs"

definition truthy :: "pystr option \<Rightarrow> bool" where
  "truthy v \<longleftrightarrow> (case v of None \<Rightarrow> False | Some t \<Rightarrow> t \<noteq> [])"

definition or_else :: "pystr option \<Rightarrow> pystr \<Rightarrow> pystr" where
  "or_else v d = (case v of None \<Rightarrow> d | Some t \<Rightarrow> if t = [] then d else t)"

definition format_opt :: "pystr option \<Rightarrow> pystr" where
  "format_opt v = (case v of None \<Rightarrow> ascii ''None'' | Some t \<Rightarrow> t)"

datatype ActionType =
  IDLE | MOVE | WORK | EAT | SLEEP | REST | CHAT | SHOP | EXERCISE | ENTERTAINMENT | WAITING

fun action_value :: "ActionType \<Rightarrow> pystr" where
  "action_value IDLE = ascii ''idle''"
| "action_value MOVE = ascii ''move''"
| "action_value WORK = ascii ''work''"
| "action_value EAT = ascii ''eat''"
| "action_value SLEEP = ascii ''sleep''"
| "action_value REST = ascii ''rest''"
| "action_value CHAT = ascii ''chat''"
| "action_value SHOP = ascii ''shop''"
| "action_value EXERCISE = ascii ''exercise''"
| "action_value ENTERTAINMENT = ascii ''entertainment''"
| "action_value WAITING = ascii ''waiting''"

datatype AgentState = ACTIVE | SLEEPING | BUSY | IN_CONVERSATION | PAUSED | OFFLINE

record Position =
  pos_x :: real
  pos_y :: real
  location_id :: "pystr option"
  location_name :: "pystr option"

record CurrentAction =
  action_type :: ActionType
  action_target :: "pystr option"
  action_target_name :: "pystr option"
  started_at :: datetime
  duration_minutes :: int
  progress :: real
  action_thinking :: "pystr option"

text \<open>The fields of \<open>Agent\<close> that the functions below read or write; identity details,
  personality, needs and relationships are left out.\<close>

record Agent =
  agent_id :: pystr
  agent_name :: pystr
  agent_memory :: MemoryManager
  balance :: real
  daily_income :: real
  daily_expense :: real
  position :: Position
  state :: AgentState
  current_action :: CurrentAction
  daily_plan :: "DailyPlan option"
  last_decision_time :: "datetime option"

section \<open>What the program does not decide\<close>

record Perception =
  current_location :: pystr
  current_location_id :: "pystr option"
  agents_nearby :: "pystr list"
  agents_nearby_ids :: "pystr list"
  new_events :: "pystr list"
  being_addressed :: bool
  addressed_by :: "pystr option"
  notable_changes :: "pystr list"
  perception_timestamp :: datetime

text \<open>A rendered prompt, by its template and the arguments it is rendered with (texts
  built from a perception or from plan blocks are given by what they are built from).\<close>

datatype prompt =
  SHOULD_REACT pystr pystr Perception pystr
| REPLAN_FROM_NOW pystr pystr pystr "PlanBlock list"
| REFLECTION_QUESTIONS pystr "pystr list"
| REFLECTION_INSIGHTS pystr pystr "pystr list"

text \<open>What \<open>should_react\<close> gets from the inference call and the extraction of a JSON
  object from its text: the call raises (or reading the object does); no object is found,
  or an empty one; or an object, with its entries \<open>should_react\<close> (its truth),
  \<open>reaction_type\<close>, \<open>reaction\<close> and \<open>reason\<close>, \<open>None\<close> for an entry that is not
  there.\<close>

datatype react_reply =
  ReactRaised
| ReactNoJson
| ReactJson "bool option" "pystr option" "pystr option" "pystr option"

text \<open>An item of the \<open>new_plan\<close> list of a re-planning reply, and what
  \<open>replan_from_now\<close> gets: the call raises (or reading the object does); no object is
  found, or an empty one; or an object, with its \<open>new_plan\<close> list when it has one.\<close>

record plan_item =
  item_start :: "pystr option"
  item_end :: "pystr option"
  item_activity :: "pystr option"
  item_location :: "pystr option"

datatype replan_reply =
  ReplanRaised
| ReplanNoJson
| ReplanJson "plan_item list option"

text \<open>The environment of a call: the clock (read once), the identifier drawn for the
  \<open>k\<close>-th memory the call may create, how a float prints, the setting
  \<open>daily_expense_base\<close>, and the inference service: the outcome of a call for a
  structured reaction, for a new plan, and for free text (\<open>None\<close> when it raises).\<close>

record Env =
  clock :: datetime
  uuid4 :: "nat \<Rightarrow> pystr"
  float_str :: "real \<Rightarrow> pystr"
  daily_expense_base :: real
  react_llm :: "prompt \<Rightarrow> react_reply"
  replan_llm :: "prompt \<Rightarrow> replan_reply"
  text_llm :: "prompt \<Rightarrow> pystr option"

text \<open>\<open>Agent.add_memory\<close> with its defaults (no related agents, no game time);
  \<open>new_id\<close> is the identifier drawn for the memory.\<close>

definition add_memory ::
  "Env \<Rightarrow> pystr \<Rightarrow> Agent \<Rightarrow> pystr \<Rightarrow> MemoryType \<Rightarrow> real \<Rightarrow> Agent option" where
  "add_memory env new_id a text memory_type imp =
     (case create_and_add (clock env) new_id (agent_memory a) text memory_type imp []
             (location_name (position a)) None None of
        None \<Rightarrow> None
      | Some (s', _) \<Rightarrow> Some (a\<lparr>agent_memory := s'\<rparr>))"

definition set_action ::
  "Env \<Rightarrow> Agent \<Rightarrow> ActionType \<Rightarrow> pystr option \<Rightarrow> pystr option \<Rightarrow> int \<Rightarrow> pystr option \<Rightarrow> Agent" where
  "set_action env a typ tgt tgt_name duration thought =
     a\<lparr>current_action :=
          \<lparr>action_type = typ, action_target = tgt, action_target_name = tgt_name,
           started_at = clock env, duration_minutes = duration, progress = 0.0,
           action_thinking = thought\<rparr>,
        state := (if typ = SLEEP then SLEEPING
                  else if typ = CHAT then IN_CONVERSATION
                  else if typ \<in> {WORK, MOVE} then BUSY
                  else ACTIVE)\<rparr>"

definition move_to :: "Agent \<Rightarrow> real \<Rightarrow> real \<Rightarrow> pystr option \<Rightarrow> pystr option \<Rightarrow> Agent" where
  "move_to a x y lid lname =
     a\<lparr>position := \<lparr>pos_x = x, pos_y = y, location_id = lid, location_name = lname\<rparr>\<rparr>"

text \<open>\<open>spend_money\<close>; the text of its memory is \<open>xiaofei le\<close>, the amount, \<open>yuan\<close>
  and a full-width colon, then the reason.\<close>

definition spend_money :: "Env \<Rightarrow> pystr \<Rightarrow> Agent \<Rightarrow> real \<Rightarrow> pystr \<Rightarrow> (Agent \<times> bool) option" where
  "spend_money env new_id a amount why =
     (if balance a < amount then Some (a, False)
      else let a1 = a\<lparr>balance := balance a - amount, daily_expense := daily_expense a + amount\<rparr>
           in if why \<noteq> []
              then (case add_memory env new_id a1
                           ([28040, 36153, 20102, 32] @ float_str env amount @ [32, 20803, 65306] @ why)
                           EVENT 3.0 of
                      None \<Rightarrow> None
                    | Some a2 \<Rightarrow> Some (a2, True))
              else Some (a1, True))"


section \<open>Reactions (agents/perception.py, agents/reaction.py)\<close>

definition is_empty :: "Perception \<Rightarrow> bool" where
  "is_empty p \<longleftrightarrow>
     agents_nearby p = [] \<and> new_events p = [] \<and> \<not> being_addressed p \<and> notable_changes p = []"

datatype ReactionType = CONTINUE | INTERRUPT | NOTE

record ReactionDecision =
  decision_should_react :: bool
  reaction_type :: ReactionType
  reaction :: "pystr option"
  reason :: pystr

text \<open>\<open>s.lower()\<close> on the letters A to Z.  \<open>should_react\<close> compares the result with
  \<open>"interrupt"\<close> and \<open>"note"\<close> only, and no other character lowers to a letter of
  these two words.\<close>

definition py_lower :: "pystr \<Rightarrow> pystr" where
  "py_lower t = map (\<lambda>c. if 65 \<le> c \<and> c \<le> 90 then c + 32 else c) t"

text \<open>The text \<open>start-end: activity\<close> of a plan block.\<close>

definition plan_text_of :: "PlanBlock \<Rightarrow> pystr" where
  "plan_text_of block = start_time block @ ascii ''-'' @ end_time block @ ascii '': '' @ activity block"

text \<open>The decision \<open>should_react\<close> falls back to: reason \<open>juece guocheng chucuo, moren
  jixu\<close> (the decision process failed, continue by default).\<close>

definition default_continue :: ReactionDecision where
  "default_continue =
     \<lparr>decision_should_react = False, reaction_type = CONTINUE, reaction = None,
      reason = [20915, 31574, 36807, 31243, 20986, 38169, 65292, 40664, 35748, 32487, 32493]\<rparr>"

text \<open>\<open>should_react\<close>.  The two returns before the prompt is built: for an empty
  perception, reason \<open>meiyou xuyao fanying de shiqing\<close> (nothing to react to); for one
  that is addressed, reaction \<open>huiying\<close> (respond to) and the addresser, reason the
  addresser and \<open>zai dengdai huiying\<close> (is waiting for a response).  Then the current
  activity (\<open>kongxian\<close>, idle, is never used: \<open>agent.current_action\<close> is always
  there), the plan text (\<open>wu teding jihua\<close>, no particular plan) and the inference
  call.\<close>

definition should_react :: "Env \<Rightarrow> Agent \<Rightarrow> Perception \<Rightarrow> PlanBlock option \<Rightarrow> ReactionDecision" where
  "should_react env a p current_plan =
     (if is_empty p
      then \<lparr>decision_should_react = False, reaction_type = CONTINUE, reaction = None,
            reason = [27809, 26377, 38656, 35201, 21453, 24212, 30340, 20107, 24773]\<rparr>
      else if being_addressed p
      then \<lparr>decision_should_react = True, reaction_type = INTERRUPT,
            reaction = Some ([22238, 24212] @ format_opt (addressed_by p)),
            reason = format_opt (addressed_by p) @ [22312, 31561, 24453, 22238, 24212]\<rparr>
      else
        let current_activity =
              (if truthy (action_thinking (current_action a))
               then the (action_thinking (current_action a))
               else action_value (action_type (current_action a)));
            plan_text =
              (case current_plan of
                 Some block \<Rightarrow> plan_text_of block
               | None \<Rightarrow>
                   (case daily_plan a of
                      None \<Rightarrow> [26080, 29305, 23450, 35745, 21010]
                    | Some plan \<Rightarrow>
                        (case get_current_block plan (clock env) of
                           None \<Rightarrow> [26080, 29305, 23450, 35745, 21010]
                         | Some block \<Rightarrow> plan_text_of block)))
        in case react_llm env (SHOULD_REACT (agent_name a) current_activity p plan_text) of
             ReactRaised \<Rightarrow> default_continue
           | ReactNoJson \<Rightarrow> default_continue
           | ReactJson should_react_value rtype rtext why \<Rightarrow>
               (let reaction_type_str = py_lower (case rtype of None \<Rightarrow> ascii ''continue'' | Some t \<Rightarrow> t)
                in \<lparr>decision_should_react = (case should_react_value of None \<Rightarrow> False | Some b \<Rightarrow> b),
                    reaction_type =
                      (if reaction_type_str = ascii ''interrupt'' then INTERRUPT
                       else if reaction_type_str = ascii ''note'' then NOTE
                       else CONTINUE),
                    reaction = rtext,
                    reason = (case why of None \<Rightarrow> [] | Some t \<Rightarrow> t)\<rparr>))"

text \<open>\<open>PlanBlock(start_time=item.get("start", "00:00"), \<dots>)\<close>.\<close>

definition block_of_item :: "plan_item \<Rightarrow> PlanBlock" where
  "block_of_item item =
     \<lparr>start_time = (case item_start item of None \<Rightarrow> ascii ''00:00'' | Some t \<Rightarrow> t),
      end_time = (case item_end item of None \<Rightarrow> ascii ''00:00'' | Some t \<Rightarrow> t),
      activity = (case item_activity item of None \<Rightarrow> [] | Some t \<Rightarrow> t),
      block_location = (case item_location item of None \<Rightarrow> [] | Some t \<Rightarrow> t)\<rparr>"

text \<open>\<open>replan_from_now\<close> (agents/planning.py): every way out of its \<open>try\<close> block but
  the one with a \<open>new_plan\<close> list ends at \<open>return []\<close>.\<close>

definition replan_from_now :: "Env \<Rightarrow> Agent \<Rightarrow> datetime \<Rightarrow> pystr \<Rightarrow> PlanBlock list" where
  "replan_from_now env a current_time what_happened =
     (case daily_plan a of
        None \<Rightarrow> []
      | Some plan \<Rightarrow>
          (let remaining = get_remaining_plan plan current_time
           in case replan_llm env
                     (REPLAN_FROM_NOW (agent_name a) what_happened (strftime_HM current_time) remaining) of
                ReplanRaised \<Rightarrow> []
              | ReplanNoJson \<Rightarrow> []
              | ReplanJson None \<Rightarrow> []
              | ReplanJson (Some items) \<Rightarrow> map block_of_item items))"

text \<open>\<open>execute_reaction\<close>, which returns \<open>True\<close> on every path; the result is the
  agent after the call, \<open>None\<close> when a memory cannot be added.  The test
  \<open>if agent.current_action\<close> of the Interrupt branch always holds (the object is always
  there).  The memory texts:
  \<open>zhuyi dao\<close> (noticed) and a full-width colon before the reaction; \<open>zhongduan le\<close>
  (interrupted), the action, a full-width colon and the reason; \<open>fanying\<close> (reaction)
  and a full-width colon before the reaction.\<close>

definition execute_reaction :: "Env \<Rightarrow> Agent \<Rightarrow> ReactionDecision \<Rightarrow> Agent option" where
  "execute_reaction env a d =
     (if \<not> decision_should_react d then Some a
      else if reaction_type d = NOTE then
        (if truthy (reaction d)
         then add_memory env (uuid4 env 0) a ([27880, 24847, 21040, 65306] @ the (reaction d))
                OBSERVATION 4.0
         else Some a)
      else if reaction_type d = INTERRUPT then do {
        a1 \<leftarrow> add_memory env (uuid4 env 0) a
                ([20013, 26029, 20102] @ action_value (action_type (current_action a)) @ [65306]
                 @ reason d) EVENT 5.0;
        a2 \<leftarrow> (if truthy (reaction d)
               then add_memory env (uuid4 env 1) a1 ([21453, 24212, 65306] @ the (reaction d)) EVENT 5.0
               else Some a1);
        (case daily_plan a2 of
           Some plan \<Rightarrow>
             (if truthy (reaction d)
              then (let new_blocks = replan_from_now env a2 (clock env) (the (reaction d))
                    in if new_blocks \<noteq> []
                       then Some (a2\<lparr>daily_plan := Some (plan\<lparr>broad_strokes := new_blocks\<rparr>)\<rparr>)
                       else Some a2)
              else Some a2)
         | None \<Rightarrow> Some a2)
      }
      else Some a)"

text \<open>The reaction step of \<open>DecisionScheduler._process_agent\<close> (agents/decision.py,
  from \<open>if reaction_decision.should_react\<close> to the end of its \<open>NOTE\<close> branch).  The
  result is the agent and whether the pipeline returns here; the activity log and the
  event bus are left out.\<close>

definition process_agent_reaction :: "Env \<Rightarrow> Agent \<Rightarrow> ReactionDecision \<Rightarrow> (Agent \<times> bool) option" where
  "process_agent_reaction env a reaction_decision =
     (if decision_should_react reaction_decision then
        (if reaction_type reaction_decision = INTERRUPT then
           (case execute_reaction env a reaction_decision of
              None \<Rightarrow> None
            | Some a' \<Rightarrow> Some (a', True))
         else if reaction_type reaction_decision = NOTE then
           (if truthy (reaction reaction_decision)
            then (case add_memory env (uuid4 env 0) a (the (reaction reaction_decision)) EVENT 3.0 of
                    None \<Rightarrow> None
                  | Some a' \<Rightarrow> Some (a', False))
            else Some (a, False))
         else Some (a, False))
      else Some (a, False))"


section \<open>Reflection (agents/reflection.py)\<close>

record ReflectionResult =
  questions :: "pystr list"
  insights :: "pystr list"
  memories_created :: nat

text \<open>\<open>s.strip()\<close> and \<open>s.split("\n")\<close> (the newline is 10).\<close>

definition py_strip :: "pystr \<Rightarrow> pystr" where
  "py_strip t = rev (dropWhile py_isspace (rev (dropWhile py_isspace t)))"

fun py_split_at :: "nat \<Rightarrow> pystr \<Rightarrow> pystr \<Rightarrow> pystr list" where
  "py_split_at sep cur [] = [cur]"
| "py_split_at sep cur (c # cs) =
     (if c = sep then cur # py_split_at sep [] cs else py_split_at sep (cur @ [c]) cs)"

definition py_lines :: "pystr \<Rightarrow> pystr list" where
  "py_lines t = py_split_at 10 [] t"

text \<open>\<open>should_reflect\<close>, for an engine with the given threshold (150 by default).\<close>

definition should_reflect :: "real \<Rightarrow> Agent \<Rightarrow> bool" where
  "should_reflect threshold a \<longleftrightarrow> threshold \<le> accumulated_importance (agent_memory a)"

text \<open>\<open>generate_questions\<close> with its default of 3 questions: the lines of the reply
  that are not blank and hold a question mark (63).\<close>

definition generate_questions :: "Env \<Rightarrow> Agent \<Rightarrow> pystr list" where
  "generate_questions env a =
     (let recent_memories = retrieve_recent (agent_memory a) 100
      in if recent_memories = [] then []
         else case text_llm env
                     (REFLECTION_QUESTIONS (agent_name a) (map content (py_prefix 50 recent_memories))) of
                None \<Rightarrow> []
              | Some reply \<Rightarrow>
                  py_prefix 3
                    (map py_strip
                       (filter (\<lambda>line. py_strip line \<noteq> [] \<and> 63 \<in> set line)
                          (py_lines (py_strip reply)))))"

text \<open>\<open>generate_insight\<close>: the agent after the retrieval (which records accesses) and
  the insight, \<open>None\<close> when there is none.  The retrieval is outside the \<open>try\<close>
  block: when it raises, \<open>generate_insight\<close> does.\<close>

definition generate_insight :: "Env \<Rightarrow> Agent \<Rightarrow> pystr \<Rightarrow> (Agent \<times> pystr option) option" where
  "generate_insight env a question =
     (case retrieve_relevant (clock env) (agent_memory a) question 10 0.1 of
        None \<Rightarrow> None
      | Some (s', relevant_results) \<Rightarrow>
          (let a' = a\<lparr>agent_memory := s'\<rparr>
           in if relevant_results = [] then Some (a', None)
              else case text_llm env
                          (REFLECTION_INSIGHTS (agent_name a) question
                             (map (\<lambda>r. content (fst r)) relevant_results)) of
                     None \<Rightarrow> Some (a', None)
                   | Some reply \<Rightarrow> Some (a', Some (py_strip reply))))"

text \<open>The loop of \<open>run_reflection\<close> over the questions; \<open>k\<close> counts the questions
  done, and the memory for the \<open>k\<close>-th question gets the \<open>k\<close>-th identifier.  The
  result is the agent, the insights and the number of memories created.\<close>

fun reflect_on :: "Env \<Rightarrow> nat \<Rightarrow> Agent \<Rightarrow> pystr list \<Rightarrow> (Agent \<times> pystr list \<times> nat) option" where
  "reflect_on env k a [] = Some (a, [], 0)"
| "reflect_on env k a (question # rest) =
     (case generate_insight env a question of
        None \<Rightarrow> None
      | Some (a1, insight) \<Rightarrow>
          if truthy insight
          then (case create_and_add (clock env) (uuid4 env k) (agent_memory a1) (the insight)
                       REFLECTION 8.0 [] None None None of
                  None \<Rightarrow> None
                | Some (s', _) \<Rightarrow>
                    (case reflect_on env (Suc k) (a1\<lparr>agent_memory := s'\<rparr>) rest of
                       None \<Rightarrow> None
                     | Some (a2, later, created) \<Rightarrow> Some (a2, the insight # later, Suc created)))
          else reflect_on env (Suc k) a1 rest)"

definition run_reflection :: "Env \<Rightarrow> Agent \<Rightarrow> (Agent \<times> ReflectionResult) option" where
  "run_reflection env a =
     (let qs = generate_questions env a
      in if qs = [] then Some (a, \<lparr>questions = [], insights = [], memories_created = 0\<rparr>)
         else case reflect_on env 0 a qs of
                None \<Rightarrow> None
              | Some (a1, found, created) \<Rightarrow>
                  Some (a1\<lparr>agent_memory := fst (reset_accumulated_importance (clock env) (agent_memory a1))\<rparr>,
                        \<lparr>questions = qs, insights = found, memories_created = created\<rparr>))"

definition maybe_reflect :: "real \<Rightarrow> Env \<Rightarrow> Agent \<Rightarrow> (Agent \<times> ReflectionResult option) option" where
  "maybe_reflect threshold env a =
     (if should_reflect threshold a
      then (case run_reflection env a of
              None \<Rightarrow> None
            | Some (a', res) \<Rightarrow> Some (a', Some res))
      else Some (a, None))"


section \<open>The world and decisions (core/locations.py, agents/manager.py, agents/decision.py)\<close>

record Location =
  loc_id :: pystr
  loc_name :: pystr
  loc_x :: real
  loc_y :: real
  capacity :: int
  current_agents :: "pystr set"

definition is_full :: "Location \<Rightarrow> bool" where
  "is_full l \<longleftrightarrow> capacity l \<le> int (card (current_agents l))"

datatype event = ChatRequested pystr "pystr option" | AgentMoved pystr "pystr option" pystr

text \<open>The world: the agent objects by reference, the agent manager's dictionaries
  (\<open>_agents\<close>, from identifiers to agent objects, and \<open>_by_location\<close>), the location
  manager's dictionary and the events published so far.\<close>

record World =
  agent_objects :: "nat \<Rightarrow> Agent"
  mgr_agents :: "(pystr \<times> nat) list"
  mgr_by_location :: "(pystr \<times> pystr set) list"
  locations :: "(pystr \<times> Location) list"
  events :: "event list"

definition update_agent :: "World \<Rightarrow> nat \<Rightarrow> (Agent \<Rightarrow> Agent) \<Rightarrow> World" where
  "update_agent w r f = w\<lparr>agent_objects := (agent_objects w)(r := f (agent_objects w r))\<rparr>"

text \<open>\<open>sub in t\<close> on strings.\<close>

definition py_in :: "pystr \<Rightarrow> pystr \<Rightarrow> bool" where
  "py_in sub t \<longleftrightarrow> list_ex (\<lambda>i. take (length sub) (drop i t) = sub) [0..<Suc (length t)]"

text \<open>\<open>LocationManager.get_by_name\<close>: an exact match first, then a partial one.\<close>

definition get_by_name :: "(pystr \<times> Location) list \<Rightarrow> pystr \<Rightarrow> Location option" where
  "get_by_name locs name =
     (case find (\<lambda>l. loc_name l = name) (map snd locs) of
        Some l \<Rightarrow> Some l
      | None \<Rightarrow> find (\<lambda>l. py_in name (loc_name l) \<or> py_in (loc_name l) name) (map snd locs))"

text \<open>\<open>LocationManager.enter(agent_id, location_id)\<close> and \<open>leave\<close>: \<open>False\<close> for an
  unknown location; for a known one they call \<open>location.agent_enter\<close> and
  \<open>location.agent_leave\<close>, which \<open>Location\<close> does not have, and raise.\<close>

definition lm_enter :: "(pystr \<times> Location) list \<Rightarrow> pystr \<Rightarrow> pystr \<Rightarrow> bool option" where
  "lm_enter locs aid lid = (if map_of locs lid = None then Some False else None)"

definition lm_leave :: "(pystr \<times> Location) list \<Rightarrow> pystr \<Rightarrow> pystr \<Rightarrow> bool option" where
  "lm_leave locs aid lid = (if map_of locs lid = None then Some False else None)"

definition remove_from_location :: "pystr \<Rightarrow> pystr \<Rightarrow> (pystr \<times> pystr set) list \<Rightarrow> (pystr \<times> pystr set) list" where
  "remove_from_location aid lid idx =
     (case map_of idx lid of
        None \<Rightarrow> idx
      | Some ids \<Rightarrow> AList.update lid (ids - {aid}) idx)"

definition add_to_location :: "pystr \<Rightarrow> pystr \<Rightarrow> (pystr \<times> pystr set) list \<Rightarrow> (pystr \<times> pystr set) list" where
  "add_to_location aid lid idx =
     (case map_of idx lid of
        None \<Rightarrow> AList.update lid {aid} idx
      | Some ids \<Rightarrow> AList.update lid (insert aid ids) idx)"

text \<open>\<open>AgentManager.move_agent\<close>.  It calls \<open>location_manager.leave(old_location_id,
  agent_id)\<close> and \<open>location_manager.enter(new_location_id, agent_id)\<close>, the location
  where the agent is expected and the agent where the location is.\<close>

definition move_agent :: "World \<Rightarrow> pystr \<Rightarrow> pystr \<Rightarrow> (World \<times> bool) option" where
  "move_agent w aid new_location_id =
     (case map_of (mgr_agents w) aid of
        None \<Rightarrow> Some (w, False)
      | Some r \<Rightarrow>
          (case map_of (locations w) new_location_id of
             None \<Rightarrow> Some (w, False)
           | Some loc \<Rightarrow>
               if is_full loc then Some (w, False)
               else do {
                 let old_location_id = location_id (position (agent_objects w r));
                 w1 \<leftarrow> (if truthy old_location_id
                        then do {
                          let wa = w\<lparr>mgr_by_location :=
                                      remove_from_location aid (the old_location_id) (mgr_by_location w)\<rparr>;
                          _ \<leftarrow> lm_leave (locations wa) (the old_location_id) aid;
                          Some wa
                        }
                        else Some w);
                 let w2 = w1\<lparr>mgr_by_location := add_to_location aid new_location_id (mgr_by_location w1)\<rparr>;
                 _ \<leftarrow> lm_enter (locations w2) new_location_id aid;
                 let w3 = update_agent w2 r
                            (\<lambda>a. move_to a (loc_x loc) (loc_y loc) (Some (loc_id loc)) (Some (loc_name loc)));
                 Some (w3\<lparr>events := events w3 @ [AgentMoved aid old_location_id new_location_id]\<rparr>, True)
               }))"

record Decision =
  thinking :: pystr
  action :: ActionType
  target :: "pystr option"
  decision_reason :: pystr
  raw_response :: pystr

text \<open>An update of the agent object \<open>r\<close> that may raise.\<close>

definition try_update_agent :: "World \<Rightarrow> nat \<Rightarrow> (Agent \<Rightarrow> Agent option) \<Rightarrow> World option" where
  "try_update_agent w r f =
     (case f (agent_objects w r) of
        None \<Rightarrow> None
      | Some a' \<Rightarrow> Some (w\<lparr>agent_objects := (agent_objects w)(r := a')\<rparr>))"

text \<open>The statement \<open>agent.current_action.thinking = decision.thinking\<close>.\<close>

definition set_thinking :: "Decision \<Rightarrow> Agent \<Rightarrow> Agent" where
  "set_thinking d a = a\<lparr>current_action := (current_action a)\<lparr>action_thinking := Some (thinking d)\<rparr>\<rparr>"

text \<open>The line \<open>location = location_manager.get_by_name(target) if target else None\<close>.\<close>

definition target_location :: "World \<Rightarrow> Decision \<Rightarrow> Location option" where
  "target_location w d =
     (if truthy (target d) then get_by_name (locations w) (the (target d)) else None)"

text \<open>\<open>execute_decision\<close> on the agent object \<open>r\<close>.  Its first statement sets the
  thinking, before the branch on the action.  The memory texts are, in the order of the branches: \<open>qianwang\<close> (going to)
  and the name; \<open>zai\<close>, the place or \<open>zheli\<close> (here), \<open>gongzuo\<close> (working);
  \<open>chi le\<close> (ate) and the target or \<open>yi dun fan\<close> (a meal), after spending for
  \<open>chifan\<close>; \<open>qu shuijiao le\<close> (went to sleep); \<open>mai le\<close> (bought) and the target or
  \<open>yixie dongxi\<close> (some things), after spending for \<open>gouwu\<close> and the target or
  \<open>riyongpin\<close>; \<open>xiangshou le\<close> (enjoyed) and the target or \<open>yule huodong\<close>.\<close>

definition execute_decision :: "Env \<Rightarrow> World \<Rightarrow> nat \<Rightarrow> Decision \<Rightarrow> (World \<times> bool) option" where
  "execute_decision env w r d =
     (let w0 = update_agent w r (set_thinking d)
      in
      if action d = MOVE then
        (case target_location w0 d of
           None \<Rightarrow> Some (w0, False)
         | Some loc \<Rightarrow>
             (case move_agent w0 (agent_id (agent_objects w0 r)) (loc_id loc) of
                None \<Rightarrow> None
              | Some (w1, success) \<Rightarrow>
                  if success then do {
                    let w2 = update_agent w1 r
                               (\<lambda>a. set_action env a MOVE (Some (loc_id loc)) (Some (loc_name loc)) 5
                                      (Some (thinking d)));
                    w3 \<leftarrow> try_update_agent w2 r
                            (\<lambda>a. add_memory env (uuid4 env 0) a ([21069, 24448] @ loc_name loc) EVENT 2.0);
                    Some (w3, True)
                  }
                  else Some (w1, False)))
      else if action d = WORK then do {
        let w1 = update_agent w0 r
                   (\<lambda>a. set_action env a WORK (location_id (position a)) (location_name (position a)) 60
                          (Some (thinking d)));
        w2 \<leftarrow> try_update_agent w1 r
                (\<lambda>a. add_memory env (uuid4 env 0) a
                       ([22312] @ or_else (location_name (position a)) [36825, 37324] @ [24037, 20316])
                       EVENT 4.0);
        Some (w2, True)
      }
      else if action d = EAT then do {
        let w1 = update_agent w0 r
                   (\<lambda>a. set_action env a EAT None (Some (or_else (target d) [21507, 19996, 35199])) 30
                          (Some (thinking d)));
        w2 \<leftarrow> try_update_agent w1 r
                (\<lambda>a. map_option fst
                       (spend_money env (uuid4 env 0) a (daily_expense_base env / 3) [21507, 39277]));
        w3 \<leftarrow> try_update_agent w2 r
                (\<lambda>a. add_memory env (uuid4 env 1) a
                       ([21507, 20102] @ or_else (target d) [19968, 39039, 39277]) EVENT 2.0);
        Some (w3, True)
      }
      else if action d = SLEEP then do {
        let w1 = update_agent w0 r (\<lambda>a. set_action env a SLEEP None None 480 (Some (thinking d)));
        w2 \<leftarrow> try_update_agent w1 r
                (\<lambda>a. add_memory env (uuid4 env 0) a [21435, 30561, 35273, 20102] EVENT 2.0);
        Some (w2, True)
      }
      else if action d = REST then
        Some (update_agent w0 r (\<lambda>a. set_action env a REST None None 30 (Some (thinking d))), True)
      else if action d = CHAT then
        (let w1 = update_agent w0 r
                    (\<lambda>a. set_action env a CHAT (target d) (target d) 15 (Some (thinking d)))
         in Some (w1\<lparr>events := events w1 @ [ChatRequested (agent_id (agent_objects w1 r)) (target d)]\<rparr>,
                  True))
      else if action d = SHOP then do {
        let w1 = update_agent w0 r (\<lambda>a. set_action env a SHOP None (target d) 30 (Some (thinking d)));
        w2 \<leftarrow> try_update_agent w1 r
                (\<lambda>a. map_option fst
                       (spend_money env (uuid4 env 0) a (daily_expense_base env * 0.2)
                          ([36141, 29289, 65306] @ or_else (target d) [26085, 29992, 21697])));
        w3 \<leftarrow> try_update_agent w2 r
                (\<lambda>a. add_memory env (uuid4 env 1) a
                       ([20080, 20102] @ or_else (target d) [19968, 20123, 19996, 35199]) EVENT 3.0);
        Some (w3, True)
      }
      else if action d = ENTERTAINMENT then do {
        let w1 = update_agent w0 r
                   (\<lambda>a. set_action env a ENTERTAINMENT None (target d) 60 (Some (thinking d)));
        w2 \<leftarrow> try_update_agent w1 r
                (\<lambda>a. add_memory env (uuid4 env 0) a
                       ([20139, 21463, 20102] @ or_else (target d) [23089, 20048, 27963, 21160]) EVENT 3.0);
        Some (w2, True)
      }
      else
        Some (update_agent w0 r (\<lambda>a. set_action env a IDLE None None 10 (Some (thinking d))), True))"


section \<open>Example agents, environments and worlds\<close>

text \<open>An environment whose inference service is down: every call raises.  The clock
  reads 0 and the \<open>k\<close>-th identifier is \<open>u\<close> followed by the character 48 + k.\<close>

definition env_down :: Env where
  "env_down =
     \<lparr>clock = 0, uuid4 = (\<lambda>k. [117, 48 + k]), float_str = (\<lambda>v. []), daily_expense_base = 100,
      react_llm = (\<lambda>q. ReactRaised), replan_llm = (\<lambda>q. ReplanRaised), text_llm = (\<lambda>q. None)\<rparr>"

text \<open>An environment whose inference service answers every request for text with the
  line \<open>a?\<close>.\<close>

definition env_asking :: Env where
  "env_asking = env_down\<lparr>text_llm := (\<lambda>q. Some [97, 63])\<rparr>"

text \<open>An idle agent \<open>z\<close> who remembers \<open>"a"\<close> and \<open>"b"\<close> and has the example plan.\<close>

definition agent_z :: Agent where
  "agent_z =
     \<lparr>agent_id = [122], agent_name = [122], agent_memory = store_ab, balance = 0,
      daily_income = 0, daily_expense = 0,
      position = \<lparr>pos_x = 0, pos_y = 0, location_id = None, location_name = None\<rparr>,
      state = ACTIVE,
      current_action =
        \<lparr>action_type = IDLE, action_target = None, action_target_name = None, started_at = 0,
         duration_minutes = 0, progress = 0, action_thinking = None\<rparr>,
      daily_plan = Some example_plan, last_decision_time = None\<rparr>"

text \<open>Nobody around and nothing new; and being addressed by Li Si (26446, 22235).\<close>

definition nothing_perceived :: Perception where
  "nothing_perceived =
     \<lparr>current_location = [], current_location_id = None, agents_nearby = [],
      agents_nearby_ids = [], new_events = [], being_addressed = False, addressed_by = None,
      notable_changes = [], perception_timestamp = 0\<rparr>"

definition addressed_by_li_si :: Perception where
  "addressed_by_li_si =
     nothing_perceived\<lparr>being_addressed := True, addressed_by := Some [26446, 22235]\<rparr>"

text \<open>Reaction decisions to note \<open>x\<close> and to interrupt for \<open>x\<close>.\<close>

definition note_x :: ReactionDecision where
  "note_x = \<lparr>decision_should_react = True, reaction_type = NOTE, reaction = Some [120],
             reason = []\<rparr>"

definition interrupt_x :: ReactionDecision where
  "interrupt_x = \<lparr>decision_should_react = True, reaction_type = INTERRUPT, reaction = Some [120],
                  reason = []\<rparr>"

text \<open>A world with the agent \<open>z\<close> and no location; the same world with one location
  named \<open>x\<close> of capacity 0; and the decision to move to \<open>x\<close>, thinking \<open>t\<close>.\<close>

definition world_without_locations :: World where
  "world_without_locations =
     \<lparr>agent_objects = (\<lambda>r. agent_z), mgr_agents = [([122], 0)], mgr_by_location = [],
      locations = [], events = []\<rparr>"

definition location_x :: Location where
  "location_x = \<lparr>loc_id = [108], loc_name = [120], loc_x = 0, loc_y = 0, capacity = 0,
                 current_agents = {}\<rparr>"

definition world_with_full_location :: World where
  "world_with_full_location = world_without_locations\<lparr>locations := [([108], location_x)]\<rparr>"

definition move_to_x :: Decision where
  "move_to_x = \<lparr>thinking = [116], action = MOVE, target = Some [120], decision_reason = [],
                raw_response = []\<rparr>"


section \<open>Properties of the memory store\<close>

subsection \<open>When the recency can be computed\<close>

lemma one_le_largest_float: "1 \<le> largest_float"
proof -
  have "(1::real) \<le> 2 ^ 53 - 1" by simp
  moreover have "(1::real) \<le> 2 ^ 971" by (rule one_le_power) simp
  ultimately have "(1::real) * 1 \<le> (2 ^ 53 - 1) * 2 ^ 971" by (intro mult_mono) auto
  then show ?thesis by (simp add: largest_float_def)
qed

lemma float_pow_nonpos: "1 \<le> b \<Longrightarrow> e \<le> 0 \<Longrightarrow> float_pow b e = Some (b powr e)"
proof -
  assume b: "1 \<le> b" and e: "e \<le> 0"
  have "b powr e \<le> b powr 0" using e b by (rule powr_mono)
  also have "\<dots> = 1" using b by simp
  finally have "b powr e \<le> largest_float" using one_le_largest_float by simp
  then show ?thesis by (simp add: float_pow_def)
qed

lemma recency_not_future: "created_at m \<le> now \<Longrightarrow> recency_defined now m"
proof -
  assume "created_at m \<le> now"
  then have "- (real_of_int (now - created_at m) / 1000000 / 3600) / 24 \<le> 0" by simp
  then have "float_pow 2.71828 (- (real_of_int (now - created_at m) / 1000000 / 3600) / 24) \<noteq> None"
    using float_pow_nonpos [of "2.71828"] by simp
  then show ?thesis by (auto simp: recency_defined_def get_recency_score_def Let_def)
qed

lemma recency_example: "get_recency_score 0 (example_memory i imp) = Some 1"
  using float_pow_nonpos [of "2.71828" 0]
  by (simp add: get_recency_score_def example_memory_def)

lemma pow_chain: "(2::real) ^ (4 * n) \<le> 2.71828 ^ (3 * n)"
proof -
  have "(2::real) ^ (4 * n) = (2 ^ 4) ^ n" by (rule power_mult)
  also have "\<dots> \<le> ((2.71828::real) ^ 3) ^ n"
    by (rule power_mono) (simp_all add: power3_eq_cube)
  also have "\<dots> = (2.71828::real) ^ (3 * n)" by (rule power_mult [symmetric])
  finally show ?thesis .
qed

lemma largest_float_less: "largest_float < 2.71828 ^ (3 * 333 + 1)"
proof -
  have "(2::real) ^ 53 - 1 \<le> 2 ^ 53" by simp
  then have "largest_float \<le> 2 ^ 53 * 2 ^ 971"
    unfolding largest_float_def by (rule mult_right_mono) (rule zero_le_power, simp)
  also have "\<dots> = (2::real) ^ (53 + 971)" by (rule power_add [symmetric])
  also have "\<dots> \<le> (2::real) ^ (4 * 333)" by (rule power_increasing) simp_all
  also have "\<dots> \<le> (2.71828::real) ^ (3 * 333)" by (rule pow_chain)
  also have "\<dots> < (2.71828::real) ^ (3 * 333 + 1)" by (rule power_strict_increasing) simp_all
  finally show ?thesis .
qed

lemma float_pow_overflow: "1000 \<le> e \<Longrightarrow> float_pow 2.71828 e = None"
proof -
  assume e: "1000 \<le> e"
  have "largest_float < 2.71828 ^ (3 * 333 + 1)" by (rule largest_float_less)
  also have "\<dots> = 2.71828 powr real (3 * 333 + 1)"
    by (rule powr_realpow [symmetric]) simp
  also have "\<dots> \<le> 2.71828 powr e" by (rule powr_mono) (use e in simp_all)
  finally have "largest_float < 2.71828 powr e" .
  then show ?thesis unfolding float_pow_def by (rule if_P)
qed

lemma thousand_days: "(r::real) \<le> - 86400000000000 \<Longrightarrow> 1000 \<le> - (r / 1000000 / 3600) / 24"
  by linarith

lemma recency_overflow: "now + 86400000000000 \<le> created_at m \<Longrightarrow> get_recency_score now m = None"
proof -
  assume "now + 86400000000000 \<le> created_at m"
  then have "real_of_int (now - created_at m) \<le> - 86400000000000" by linarith
  then have "1000 \<le> - (real_of_int (now - created_at m) / 1000000 / 3600) / 24"
    by (rule thousand_days)
  then have "float_pow 2.71828 (- (real_of_int (now - created_at m) / 1000000 / 3600) / 24) = None"
    by (rule float_pow_overflow)
  then show ?thesis unfolding get_recency_score_def Let_def by simp
qed

lemma retrieval_score_total:
  "recency_defined now m \<Longrightarrow> \<exists>score. get_retrieval_score now q m = Some score"
  by (auto simp: recency_defined_def get_retrieval_score_def Let_def)

lemma score_each_Some: "score_each now ms = Some scored \<Longrightarrow> map fst scored = ms"
  by (induction ms arbitrary: scored) (auto split: option.splits)

lemma score_each_total:
  "list_all (recency_defined now) ms \<Longrightarrow> \<exists>scored. score_each now ms = Some scored"
proof (induction ms)
  case Nil
  then show ?case by simp
next
  case (Cons m ms)
  then obtain scored where "score_each now ms = Some scored" by auto
  moreover obtain score where "get_retrieval_score now None m = Some score"
    using Cons.prems retrieval_score_total [of now m None] by auto
  ultimately show ?case by simp
qed

lemma scores_defined_iff:
  "scores_defined now s \<longleftrightarrow> (\<forall>p \<in> set (memories s). recency_defined now (snd p))"
  by (auto simp: scores_defined_def list_all_iff)

subsection \<open>Removal and eviction\<close>

lemma types_indexedD: "types_indexed s \<Longrightarrow> \<exists>ids. map_of (by_type s) t = Some ids"
  by (cases t) (auto simp: types_indexed_def all_memory_types_def)

lemma types_indexed_update:
  "types_indexed s \<Longrightarrow> by_type s' = AList.update t ids (by_type s) \<Longrightarrow> types_indexed s'"
  by (simp add: types_indexed_def list_all_iff update_conv')

lemma delete_absent: "map_of al k = None \<Longrightarrow> AList.delete k al = al"
  by (induction al) (auto simp: split: if_splits)

lemma remove_result:
  assumes "types_indexed s"
  shows "\<exists>s' b. remove s k = Some (s', b) \<and> types_indexed s'
           \<and> memories s' = AList.delete k (memories s)
           \<and> max_memories s' = max_memories s
           \<and> accumulated_importance s' = accumulated_importance s
           \<and> last_reflection_time s' = last_reflection_time s"
proof (cases "map_of (memories s) k")
  case None
  then show ?thesis using assms by (auto simp: remove_def delete_absent)
next
  case (Some memory)
  obtain ids where ids: "map_of (by_type s) (mem_type memory) = Some ids"
    using types_indexedD [OF assms] by blast
  show ?thesis
    using assms Some ids
    by (auto simp: remove_def Let_def types_indexed_def list_all_iff update_conv')
qed

lemma remove_each_result:
  "types_indexed s \<Longrightarrow>
   \<exists>s'. remove_each s ms = Some s' \<and> types_indexed s'
      \<and> memories s' = fold (\<lambda>m. AList.delete (mem_id m)) ms (memories s)
      \<and> max_memories s' = max_memories s
      \<and> accumulated_importance s' = accumulated_importance s
      \<and> last_reflection_time s' = last_reflection_time s"
proof (induction ms arbitrary: s)
  case Nil
  then show ?case by simp
next
  case (Cons m ms)
  from remove_result [OF Cons.prems, of "mem_id m"]
  obtain s1 b where r: "remove s (mem_id m) = Some (s1, b)" "types_indexed s1"
    "memories s1 = AList.delete (mem_id m) (memories s)"
    "max_memories s1 = max_memories s"
    "accumulated_importance s1 = accumulated_importance s"
    "last_reflection_time s1 = last_reflection_time s"
    by blast
  from Cons.IH [OF r(2)] r show ?case by auto
qed

lemma remove_Some:
  assumes "remove s k = Some (s', b)"
  shows "memories s' = AList.delete k (memories s) \<and> max_memories s' = max_memories s
         \<and> accumulated_importance s' = accumulated_importance s
         \<and> last_reflection_time s' = last_reflection_time s"
proof (cases "map_of (memories s) k")
  case None
  then show ?thesis using assms by (auto simp: remove_def delete_absent)
next
  case (Some memory)
  then show ?thesis using assms
    by (cases "map_of (by_type s) (mem_type memory)") (auto simp: remove_def Let_def)
qed

lemma remove_each_Some:
  "remove_each s ms = Some s' \<Longrightarrow>
   memories s' = fold (\<lambda>m. AList.delete (mem_id m)) ms (memories s)
   \<and> max_memories s' = max_memories s
   \<and> accumulated_importance s' = accumulated_importance s
   \<and> last_reflection_time s' = last_reflection_time s"
proof (induction ms arbitrary: s)
  case Nil
  then show ?case by simp
next
  case (Cons m ms)
  from Cons.prems obtain s1 b where r: "remove s (mem_id m) = Some (s1, b)"
    "remove_each s1 ms = Some s'"
    by (auto split: option.splits)
  from remove_Some [OF r(1)] Cons.IH [OF r(2)] show ?case by simp
qed

lemma length_delete_le: "length (AList.delete k al) \<le> length al"
  by (simp add: AList.delete_eq)

lemma length_fold_delete_le:
  "length (fold (\<lambda>m. AList.delete (f m)) ms al) \<le> length al"
proof (induction ms arbitrary: al)
  case Nil
  then show ?case by simp
next
  case (Cons m ms)
  have "length (fold (\<lambda>m. AList.delete (f m)) ms (AList.delete (f m) al))
          \<le> length (AList.delete (f m) al)" by (rule Cons.IH)
  also have "\<dots> \<le> length al" by (rule length_delete_le)
  finally show ?case by simp
qed

lemma length_delete_less_aux: "(k, v) \<in> set al \<Longrightarrow> length (AList.delete k al) < length al"
proof (induction al)
  case Nil
  then show ?case by simp
next
  case (Cons p al)
  show ?case
  proof (cases "fst p = k")
    case True
    then show ?thesis using length_delete_le [of k al] by (cases p) auto
  next
    case False
    then have "(k, v) \<in> set al" using Cons.prems by auto
    from Cons.IH [OF this] False show ?thesis by (cases p) auto
  qed
qed

lemma length_delete_less: "k \<in> fst ` set al \<Longrightarrow> length (AList.delete k al) < length al"
  using length_delete_less_aux by force

lemma keys_ok_delete:
  "distinct (map fst al) \<Longrightarrow> list_all (\<lambda>(k, m). mem_id m = k) al \<Longrightarrow>
   distinct (map fst (AList.delete k al)) \<and> list_all (\<lambda>(k, m). mem_id m = k) (AList.delete k al)"
proof
  assume d: "distinct (map fst al)" and l: "list_all (\<lambda>(k, m). mem_id m = k) al"
  show "distinct (map fst (AList.delete k al))" using d by (rule distinct_delete)
  show "list_all (\<lambda>(k, m). mem_id m = k) (AList.delete k al)"
    using l by (auto simp: list_all_iff AList.delete_eq)
qed

lemma keys_ok_fold_delete:
  "distinct (map fst al) \<Longrightarrow> list_all (\<lambda>(k, m). mem_id m = k) al \<Longrightarrow>
   distinct (map fst (fold (\<lambda>m. AList.delete (f m)) ms al))
   \<and> list_all (\<lambda>(k, m). mem_id m = k) (fold (\<lambda>m. AList.delete (f m)) ms al)"
proof (induction ms arbitrary: al)
  case Nil
  then show ?case by simp
next
  case (Cons m ms)
  from keys_ok_delete [OF Cons.prems, of "f m"] Cons.IH show ?case by simp
qed

lemma py_prefix_pos: "1 \<le> n \<Longrightarrow> py_prefix n (x # xs) = x # take (nat n - 1) xs"
  by (cases "nat n") (auto simp: py_prefix_def)

lemma set_fold_delete_subset:
  "set (fold (\<lambda>m. AList.delete (f m)) ms al) \<subseteq> set al"
proof (induction ms arbitrary: al)
  case Nil
  then show ?case by simp
next
  case (Cons m ms)
  have "set (fold (\<lambda>m. AList.delete (f m)) ms (AList.delete (f m) al))
          \<subseteq> set (AList.delete (f m) al)" by (rule Cons.IH)
  also have "\<dots> \<subseteq> set al" by (auto simp: AList.delete_eq)
  finally show ?case by simp
qed

lemma forget_Some:
  assumes f: "forget_least_important now s = Some s'"
  shows "max_memories s' = max_memories s
         \<and> accumulated_importance s' = accumulated_importance s
         \<and> last_reflection_time s' = last_reflection_time s
         \<and> length (memories s') \<le> length (memories s)
         \<and> set (memories s') \<subseteq> set (memories s)
         \<and> (keys_ok s \<longrightarrow> keys_ok s')
         \<and> (keys_ok s \<and> memories s \<noteq> [] \<longrightarrow> length (memories s') < length (memories s))
         \<and> (types_indexed s \<longrightarrow> types_indexed s')"
proof (cases "memories s = []")
  case True
  then show ?thesis using f by (simp add: forget_least_important_def)
next
  case False
  from f False obtain scored where sc: "score_each now (map snd (memories s)) = Some scored"
    by (auto simp: forget_least_important_def split: option.splits)
  define sorted_memories where "sorted_memories = map fst (sort_key snd scored)"
  define to_remove where "to_remove = max 1 (int (length sorted_memories) div 10)"
  define victims where "victims = py_prefix to_remove sorted_memories"
  have r0: "remove_each s victims = Some s'"
    using f False sc
    by (simp add: forget_least_important_def Let_def sorted_memories_def to_remove_def victims_def)
  from remove_each_Some [OF r0]
  have r: "memories s' = fold (\<lambda>m. AList.delete (mem_id m)) victims (memories s)"
    "max_memories s' = max_memories s"
    "accumulated_importance s' = accumulated_importance s"
    "last_reflection_time s' = last_reflection_time s"
    by simp_all
  have le: "length (memories s') \<le> length (memories s)"
    unfolding r(1) by (rule length_fold_delete_le)
  have sub: "set (memories s') \<subseteq> set (memories s)"
    unfolding r(1) by (rule set_fold_delete_subset)
  have ko: "keys_ok s \<longrightarrow> keys_ok s'"
    unfolding keys_ok_def r(1) using keys_ok_fold_delete by blast
  have ti: "types_indexed s \<longrightarrow> types_indexed s'"
    using remove_each_result [of s victims] r0 by auto
  have ms: "map fst scored = map snd (memories s)" using sc by (rule score_each_Some)
  have lt: "length (memories s') < length (memories s)" if k: "keys_ok s"
  proof -
    have "length sorted_memories = length (map fst scored)"
      by (simp add: sorted_memories_def)
    then have "length sorted_memories = length (memories s)" by (simp add: ms)
    then have "sorted_memories \<noteq> []" using False by auto
    then obtain x xs where sx: "sorted_memories = x # xs" by (cases sorted_memories) auto
    have "1 \<le> to_remove" by (simp add: to_remove_def)
    then have v: "victims = x # take (nat to_remove - 1) xs"
      unfolding victims_def sx by (rule py_prefix_pos)
    have "x \<in> set sorted_memories" by (simp add: sx)
    then have "x \<in> set (map fst scored)" by (auto simp: sorted_memories_def)
    then have "x \<in> snd ` set (memories s)" by (simp add: ms)
    then obtain key where kx: "(key, x) \<in> set (memories s)" by force
    then have "mem_id x = key" using k by (auto simp: keys_ok_def list_all_iff)
    then have "mem_id x \<in> fst ` set (memories s)" using kx by force
    then have "length (AList.delete (mem_id x) (memories s)) < length (memories s)"
      by (rule length_delete_less)
    moreover have "length (memories s') \<le> length (AList.delete (mem_id x) (memories s))"
      unfolding r(1) v using length_fold_delete_le [of mem_id] by simp
    ultimately show ?thesis by simp
  qed
  show ?thesis using r le sub ko ti lt by auto
qed

lemma forget_total:
  assumes "types_indexed s" "scores_defined now s"
  shows "\<exists>s'. forget_least_important now s = Some s'"
proof (cases "memories s = []")
  case True
  then show ?thesis by (simp add: forget_least_important_def)
next
  case False
  from assms(2) obtain scored where sc: "score_each now (map snd (memories s)) = Some scored"
    using score_each_total [of now "map snd (memories s)"] by (auto simp: scores_defined_def)
  from remove_each_result [OF assms(1)]
  show ?thesis using False sc by (simp add: forget_least_important_def Let_def) blast
qed

subsection \<open>Adding\<close>



lemma set_update_subset: "set (AList.update k v al) \<subseteq> insert (k, v) (set al)"
  by (induction al) auto

lemma add_Some:
  assumes a: "add now s memory = Some (s', i)"
  shows "i = mem_id memory
         \<and> (\<exists>s1. (if max_memories s \<le> int (length (memories s))
                    then forget_least_important now s = Some s1 else s1 = s)
                 \<and> memories s' = AList.update (mem_id memory) memory (memories s1))
         \<and> max_memories s' = max_memories s
         \<and> accumulated_importance s' = accumulated_importance s + importance memory
         \<and> last_reflection_time s' = last_reflection_time s
         \<and> set (memories s') \<subseteq> insert (mem_id memory, memory) (set (memories s))
         \<and> (types_indexed s \<longrightarrow> types_indexed s')
         \<and> map_of (memories s') (mem_id memory) = Some memory"
proof -
  from a obtain s1 where s1: "(if max_memories s \<le> int (length (memories s))
               then forget_least_important now s else Some s) = Some s1"
    by (auto simp: add_def split: Option.bind_splits)
  have p: "max_memories s1 = max_memories s \<and> accumulated_importance s1 = accumulated_importance s
        \<and> last_reflection_time s1 = last_reflection_time s
        \<and> set (memories s1) \<subseteq> set (memories s)
        \<and> (types_indexed s \<longrightarrow> types_indexed s1)"
  proof (cases "max_memories s \<le> int (length (memories s))")
    case True
    with s1 have "forget_least_important now s = Some s1" by simp
    from forget_Some [OF this] show ?thesis by simp
  next
    case False
    with s1 show ?thesis by simp
  qed
  from a s1 obtain ids where ids: "map_of (by_type s1) (mem_type memory) = Some ids"
    by (auto simp: add_def Let_def split: Option.bind_splits)
  have e: "s' = s1\<lparr>memories := AList.update (mem_id memory) memory (memories s1),
         by_type := AList.update (mem_type memory) (ids @ [mem_id memory]) (by_type s1),
         by_agent := fold (index_agent (mem_id memory)) (related_agents memory) (by_agent s1),
         accumulated_importance := accumulated_importance s1 + importance memory\<rparr>"
    and i: "i = mem_id memory"
    using a s1 ids by (auto simp: add_def Let_def)
  have t: "types_indexed s1 \<longrightarrow> types_indexed s'"
    using types_indexed_update [of s1 s' "mem_type memory" "ids @ [mem_id memory]"] e by simp
  have sub: "set (memories s') \<subseteq> insert (mem_id memory, memory) (set (memories s))"
    using set_update_subset [of "mem_id memory" memory "memories s1"] p e by auto
  have "(if max_memories s \<le> int (length (memories s))
                    then forget_least_important now s = Some s1 else s1 = s)
        \<and> memories s' = AList.update (mem_id memory) memory (memories s1)"
    using s1 e by (auto split: if_splits)
  moreover have "map_of (memories s') (mem_id memory) = Some memory"
    using e by (simp add: update_conv')
  ultimately show ?thesis using i p e t sub by auto
qed

lemma add_total:
  assumes "types_indexed s" "scores_defined now s"
  shows "\<exists>s'. add now s memory = Some (s', mem_id memory)"
proof -
  obtain s1 where s1: "(if max_memories s \<le> int (length (memories s))
               then forget_least_important now s else Some s) = Some s1" "types_indexed s1"
  proof (cases "max_memories s \<le> int (length (memories s))")
    case True
    from forget_total [OF assms] obtain s0 where f: "forget_least_important now s = Some s0"
      by blast
    from forget_Some [OF f] assms(1) have "types_indexed s0" by simp
    then show ?thesis using True f that [of s0] by simp
  next
    case False
    then show ?thesis using assms that [of s] by simp
  qed
  obtain ids where ids: "map_of (by_type s1) (mem_type memory) = Some ids"
    using types_indexedD [OF s1(2)] by blast
  show ?thesis using s1(1) ids by (simp add: add_def Let_def)
qed

lemma add_result:
  assumes "types_indexed s" "scores_defined now s"
  shows "\<exists>s' s1. add now s memory = Some (s', mem_id memory) \<and> types_indexed s'
           \<and> (if max_memories s \<le> int (length (memories s))
               then forget_least_important now s = Some s1 else s1 = s)
           \<and> memories s' = AList.update (mem_id memory) memory (memories s1)
           \<and> max_memories s' = max_memories s
           \<and> accumulated_importance s' = accumulated_importance s + importance memory
           \<and> last_reflection_time s' = last_reflection_time s
           \<and> set (memories s') \<subseteq> insert (mem_id memory, memory) (set (memories s))"
proof -
  from add_total [OF assms] obtain s' where a: "add now s memory = Some (s', mem_id memory)"
    by blast
  from add_Some [OF a] assms(1) a show ?thesis by auto
qed

lemma add_result_lookup:
  assumes "types_indexed s" "scores_defined now s"
  shows "\<exists>s'. add now s memory = Some (s', mem_id memory) \<and> types_indexed s'
           \<and> map_of (memories s') (mem_id memory) = Some memory
           \<and> accumulated_importance s' = accumulated_importance s + importance memory
           \<and> set (memories s') \<subseteq> insert (mem_id memory, memory) (set (memories s))"
proof -
  from add_total [OF assms] obtain s' where a: "add now s memory = Some (s', mem_id memory)"
    by blast
  from add_Some [OF a] assms(1) a show ?thesis by auto
qed

lemma scores_defined_subset:
  "scores_defined now s \<Longrightarrow> recency_defined now m \<Longrightarrow>
   set (memories s') \<subseteq> insert (k, m) (set (memories s)) \<Longrightarrow> scores_defined now s'"
  by (auto simp: scores_defined_iff)


lemma types_indexed_init: "types_indexed (MemoryManager_init cap stl thr)"
  by (simp add: types_indexed_def MemoryManager_init_def all_memory_types_def)


subsection \<open>Sequences of calls\<close>



lemma run_ops_Some:
  "run_ops s ops = Some s' \<Longrightarrow>
   accumulated_importance s' = accumulated_importance s + added_importance ops"
proof (induction ops arbitrary: s)
  case Nil
  then show ?case by simp
next
  case (Cons op ops)
  show ?case
  proof (cases op)
    case (Add now memory)
    with Cons.prems obtain s1 i where a: "add now s memory = Some (s1, i)"
      "run_ops s1 ops = Some s'" by (auto split: option.splits)
    from add_Some [OF a(1)] Cons.IH [OF a(2)] Add show ?thesis by simp
  next
    case (Remove memory_id)
    with Cons.prems obtain s1 b where r: "remove s memory_id = Some (s1, b)"
      "run_ops s1 ops = Some s'" by (auto split: option.splits)
    from remove_Some [OF r(1)] Cons.IH [OF r(2)] Remove show ?thesis by simp
  qed
qed

lemma ops_scored_iff:
  "ops_scored s ops \<longleftrightarrow>
     (\<forall>now \<in> set (op_clocks ops). \<forall>m \<in> snd ` set (memories s) \<union> set (op_memories ops).
        recency_defined now m)"
  by (auto simp: ops_scored_def list_all_iff)

lemma run_ops_total:
  "types_indexed s \<Longrightarrow> ops_scored s ops \<Longrightarrow> \<exists>s'. run_ops s ops = Some s'"
proof (induction ops arbitrary: s)
  case Nil
  then show ?case by simp
next
  case (Cons op ops)
  show ?case
  proof (cases op)
    case (Add now memory)
    have sd: "scores_defined now s"
      using Cons.prems(2) Add by (auto simp: ops_scored_iff scores_defined_iff)
    from add_result [OF Cons.prems(1) sd, of memory]
    obtain s1 where a: "add now s memory = Some (s1, mem_id memory)" "types_indexed s1"
      "set (memories s1) \<subseteq> insert (mem_id memory, memory) (set (memories s))" by blast
    have "ops_scored s1 ops"
      using Cons.prems(2) Add a(3) by (fastforce simp: ops_scored_iff)
    from Cons.IH [OF a(2) this] a Add show ?thesis by auto
  next
    case (Remove memory_id)
    from remove_result [OF Cons.prems(1), of memory_id]
    obtain s1 b where r: "remove s memory_id = Some (s1, b)" "types_indexed s1"
      "memories s1 = AList.delete memory_id (memories s)" by blast
    have "set (memories s1) \<subseteq> set (memories s)" by (auto simp: r(3) AList.delete_eq)
    then have "ops_scored s1 ops"
      using Cons.prems(2) Remove by (fastforce simp: ops_scored_iff)
    from Cons.IH [OF r(2) this] r Remove show ?thesis by auto
  qed
qed

subsection \<open>The example stores\<close>

lemma retrieval_example:
  "get_retrieval_score 0 None (example_memory i imp) = Some (imp / 10 * 0.4 + 0.3 + 0.15)"
  "get_retrieval_score 0 (Some {}) (example_memory i imp) = Some (imp / 10 * 0.4 + 0.3 + 0.15)"
  by (simp_all add: get_retrieval_score_def recency_example) (simp_all add: example_memory_def)

lemma store_ab_built:
  "add_all (MemoryManager_init 200 20 3) [(0, example_memory [97] 5), (0, example_memory [98] 5)]
     = Some store_ab"
  by (simp add: add_def MemoryManager_init_def all_memory_types_def example_memory_def
      store_ab_def)

lemma retrieve_ab:
  "retrieve_relevant 0 store_ab [] 1 0.1 =
     Some (store_ab\<lparr>memories := [([97], access 0 (example_memory [97] 5)),
                                  ([98], access 0 (example_memory [98] 5))]\<rparr>,
           [(access 0 (example_memory [97] 5), 0.65)])"
  by (simp add: retrieve_relevant_def extract_keywords_def py_split_def py_replace_char_def
      store_ab_def retrieval_example py_prefix_def Let_def)

lemma two_adds_and_a_remove:
  "run_ops (MemoryManager_init 1 20 3)
     [Add 0 (example_memory [97] 80), Add 0 (example_memory [98] 80), Remove [98]]
   = Some ((MemoryManager_init 1 20 3)\<lparr>accumulated_importance := 160\<rparr>)"
  by (simp add: add_def remove_def forget_least_important_def MemoryManager_init_def
      all_memory_types_def retrieval_example py_prefix_def Let_def)
     (simp add: example_memory_def)

lemma scores_defined_store_ab: "scores_defined 0 store_ab"
  by (simp add: scores_defined_def store_ab_def recency_defined_def recency_example)

lemma scores_defined_store_full: "scores_defined 0 store_full"
  by (simp add: scores_defined_def store_full_def recency_defined_def recency_example)


lemma ops_scored_example:
  "ops_scored (MemoryManager_init 1 20 3)
     [Add 0 (example_memory [97] 80), Add 0 (example_memory [98] 80), Remove [98]]"
  by (simp add: ops_scored_def MemoryManager_init_def recency_defined_def recency_example)

text \<open>Where the recency cannot be computed, \<open>add\<close> on a full store raises: eviction
  sorts by a score that overflows.\<close>

lemma add_raises_on_far_future: "add 0 store_far_future (example_memory [98] 0) = None"
proof -
  have "get_recency_score 0 far_future_memory = None"
    by (rule recency_overflow) (simp add: far_future_memory_def)
  then have "forget_least_important 0 store_far_future = None"
    by (simp add: forget_least_important_def store_far_future_def get_retrieval_score_def)
  then show ?thesis by (simp add: add_def store_far_future_def store_full_def)
qed

section \<open>Properties of plans\<close>

lemma first_covering_find: "first_covering t bs = find (covers t) bs"
  by (induction bs) (auto simp: covers_def)

lemma find_append_case:
  "find P (xs @ ys) = (case find P xs of None \<Rightarrow> find P ys | Some x \<Rightarrow> Some x)"
  by (induction xs) auto

lemma get_current_block_find:
  "get_current_block plan t =
     find (covers (strftime_HM t)) (current_tasks plan @ hourly_chunks plan @ broad_strokes plan)"
  by (simp add: get_current_block_def first_covering_find find_append_case Let_def
      split: option.splits)

lemma strftime_930: "strftime_HM half_past_nine = [48, 57, 58, 51, 48]"
  by (simp add: strftime_HM_def half_past_nine_def two_digits_def)

lemma covers_930_block_9_10: "covers [48, 57, 58, 51, 48] block_9_10"
  by (simp add: covers_def block_9_10_def)

section \<open>Properties of reactions, reflection and decisions\<close>

lemma new_memory_fields:
  "mem_id (new_memory now i t ty imp rel loc emo gt) = i"
  "importance (new_memory now i t ty imp rel loc emo gt) = imp"
  "mem_type (new_memory now i t ty imp rel loc emo gt) = ty"
  "content (new_memory now i t ty imp rel loc emo gt) = t"
  "created_at (new_memory now i t ty imp rel loc emo gt) = now"
  by (simp_all add: new_memory_def post_init_def Let_def)

lemma new_memory_scored: "recency_defined now (new_memory now i t ty imp rel loc emo gt)"
  by (rule recency_not_future) (simp add: new_memory_fields)

lemma create_and_add_result:
  assumes "types_indexed s" "scores_defined now s"
  shows "\<exists>s'. create_and_add now i s t ty imp rel loc emo gt
                 = Some (s', new_memory now i t ty imp rel loc emo gt)
           \<and> types_indexed s' \<and> scores_defined now s'
           \<and> map_of (memories s') i = Some (new_memory now i t ty imp rel loc emo gt)
           \<and> accumulated_importance s' = accumulated_importance s + imp"
proof -
  let ?m = "new_memory now i t ty imp rel loc emo gt"
  from add_result_lookup [OF assms, of ?m]
  obtain s' where a:
    "add now s ?m = Some (s', mem_id ?m)" "types_indexed s'"
    "map_of (memories s') (mem_id ?m) = Some ?m"
    "accumulated_importance s' = accumulated_importance s + importance ?m"
    "set (memories s') \<subseteq> insert (mem_id ?m, ?m) (set (memories s))"
    by blast
  have "scores_defined now s'"
    using assms(2) new_memory_scored a(5) by (rule scores_defined_subset)
  with a show ?thesis by (simp add: create_and_add_def new_memory_fields)
qed

lemma add_memory_result:
  assumes "types_indexed (agent_memory a)" "scores_defined (clock env) (agent_memory a)"
  shows "\<exists>s'. add_memory env i a t ty imp = Some (a\<lparr>agent_memory := s'\<rparr>)
           \<and> types_indexed s' \<and> scores_defined (clock env) s'
           \<and> map_of (memories s') i
               = Some (new_memory (clock env) i t ty imp [] (location_name (position a)) None None)
           \<and> accumulated_importance s' = accumulated_importance (agent_memory a) + imp"
proof -
  from create_and_add_result [OF assms, of i t ty imp "[]"
      "location_name (position a)" None None]
  obtain s' where "create_and_add (clock env) i (agent_memory a) t ty imp []
      (location_name (position a)) None None
        = Some (s', new_memory (clock env) i t ty imp [] (location_name (position a)) None None)"
    "types_indexed s'" "scores_defined (clock env) s'"
    "map_of (memories s') i
       = Some (new_memory (clock env) i t ty imp [] (location_name (position a)) None None)"
    "accumulated_importance s' = accumulated_importance (agent_memory a) + imp" by blast
  then show ?thesis by (intro exI [of _ s']) (simp add: add_memory_def)
qed

lemma add_memory_Some:
  "add_memory env i a t ty imp = Some a' \<Longrightarrow> daily_plan a' = daily_plan a"
  by (auto simp: add_memory_def split: option.splits)

lemma replan_failure:
  assumes "\<forall>q. replan_llm env q = ReplanRaised \<or> replan_llm env q = ReplanNoJson"
  shows "replan_from_now env a t what = []"
proof (cases "daily_plan a")
  case None
  then show ?thesis by (simp add: replan_from_now_def)
next
  case (Some plan)
  let ?q = "REPLAN_FROM_NOW (agent_name a) what (strftime_HM t) (get_remaining_plan plan t)"
  from assms have "replan_llm env ?q = ReplanRaised \<or> replan_llm env ?q = ReplanNoJson" by blast
  then show ?thesis using Some by (auto simp: replan_from_now_def Let_def)
qed

lemma execute_reaction_plan:
  assumes t: "types_indexed (agent_memory a)"
    and sd: "scores_defined (clock env) (agent_memory a)"
    and e: "\<forall>b. daily_plan b = daily_plan a \<longrightarrow> replan_from_now env b (clock env) (the (reaction d)) = []"
  shows "\<exists>a'. execute_reaction env a d = Some a' \<and> daily_plan a' = daily_plan a"
proof -
  consider (none) "\<not> decision_should_react d"
    | (noting) "decision_should_react d" "reaction_type d = NOTE"
    | (intr) "decision_should_react d" "reaction_type d = INTERRUPT"
    | (cont) "decision_should_react d" "reaction_type d = CONTINUE"
    by (cases "reaction_type d") auto
  then show ?thesis
  proof cases
    case none
    then show ?thesis by (simp add: execute_reaction_def)
  next
    case noting
    from add_memory_result [OF t sd]
    obtain s' where "add_memory env (uuid4 env 0) a ([27880, 24847, 21040, 65306] @ the (reaction d))
                OBSERVATION 4.0 = Some (a\<lparr>agent_memory := s'\<rparr>)" by blast
    then show ?thesis using noting by (simp add: execute_reaction_def)
  next
    case intr
    from add_memory_result [OF t sd]
    obtain s1 where s1: "add_memory env (uuid4 env 0) a
                ([20013, 26029, 20102] @ action_value (action_type (current_action a)) @ [65306]
                 @ reason d) EVENT 5.0 = Some (a\<lparr>agent_memory := s1\<rparr>)" "types_indexed s1"
      "scores_defined (clock env) s1" by blast
    define a1 where "a1 = a\<lparr>agent_memory := s1\<rparr>"
    have t1: "types_indexed (agent_memory a1)" using s1 by (simp add: a1_def)
    have sd1: "scores_defined (clock env) (agent_memory a1)" using s1 by (simp add: a1_def)
    obtain a2 where a2: "(if truthy (reaction d)
               then add_memory env (uuid4 env 1) a1 ([21453, 24212, 65306] @ the (reaction d)) EVENT 5.0
               else Some a1) = Some a2" "daily_plan a2 = daily_plan a"
    proof (cases "truthy (reaction d)")
      case True
      from add_memory_result [OF t1 sd1]
      obtain s2 where "add_memory env (uuid4 env 1) a1 ([21453, 24212, 65306] @ the (reaction d))
         EVENT 5.0 = Some (a1\<lparr>agent_memory := s2\<rparr>)" by blast
      then show ?thesis using True that [of "a1\<lparr>agent_memory := s2\<rparr>"] by (simp add: a1_def)
    next
      case False
      then show ?thesis using that [of a1] by (simp add: a1_def)
    qed
    from e a2(2) have r: "replan_from_now env a2 (clock env) (the (reaction d)) = []" by blast
    show ?thesis
      using intr s1(1) a2 r
      by (auto simp: execute_reaction_def a1_def Let_def split: option.splits)
  next
    case cont
    then show ?thesis by (simp add: execute_reaction_def)
  qed
qed

lemma execute_reaction_Some_plan:
  assumes x: "execute_reaction env a d = Some a'"
    and e: "\<forall>b. daily_plan b = daily_plan a \<longrightarrow> replan_from_now env b (clock env) (the (reaction d)) = []"
  shows "daily_plan a' = daily_plan a"
proof -
  consider (none) "\<not> decision_should_react d"
    | (noting) "decision_should_react d" "reaction_type d = NOTE"
    | (intr) "decision_should_react d" "reaction_type d = INTERRUPT"
    | (cont) "decision_should_react d" "reaction_type d = CONTINUE"
    by (cases "reaction_type d") auto
  then show ?thesis
  proof cases
    case none
    then show ?thesis using x by (simp add: execute_reaction_def)
  next
    case noting
    then show ?thesis using x add_memory_Some
      by (auto simp: execute_reaction_def split: if_splits)
  next
    case intr
    from x intr obtain a1 a2 where s:
      "add_memory env (uuid4 env 0) a
                ([20013, 26029, 20102] @ action_value (action_type (current_action a)) @ [65306]
                 @ reason d) EVENT 5.0 = Some a1"
      "(if truthy (reaction d)
               then add_memory env (uuid4 env 1) a1 ([21453, 24212, 65306] @ the (reaction d)) EVENT 5.0
               else Some a1) = Some a2"
      "(case daily_plan a2 of
           Some plan \<Rightarrow>
             (if truthy (reaction d)
              then (let new_blocks = replan_from_now env a2 (clock env) (the (reaction d))
                    in if new_blocks \<noteq> []
                       then Some (a2\<lparr>daily_plan := Some (plan\<lparr>broad_strokes := new_blocks\<rparr>)\<rparr>)
                       else Some a2)
              else Some a2)
         | None \<Rightarrow> Some a2) = Some a'"
      by (auto simp: execute_reaction_def split: Option.bind_splits)
    have p1: "daily_plan a1 = daily_plan a" using s(1) by (rule add_memory_Some)
    have p2: "daily_plan a2 = daily_plan a"
      using s(2) p1 add_memory_Some by (auto split: if_splits)
    from e p2 have r: "replan_from_now env a2 (clock env) (the (reaction d)) = []" by blast
    show ?thesis using s(3) p2 r by (auto simp: Let_def split: option.splits if_splits)
  next
    case cont
    then show ?thesis using x by (simp add: execute_reaction_def)
  qed
qed

lemma types_indexed_agent_z: "types_indexed (agent_memory agent_z)"
  by (simp add: agent_z_def store_ab_def types_indexed_def all_memory_types_def)

lemma scores_defined_agent_z: "scores_defined 0 (agent_memory agent_z)"
  using scores_defined_store_ab by (simp add: agent_z_def)

lemma move_agent_full:
  assumes "map_of (locations w) lid = None
           \<or> (\<exists>l. map_of (locations w) lid = Some l \<and> is_full l)"
  shows "move_agent w aid lid = Some (w, False)"
  using assms by (auto simp: move_agent_def split: option.splits)

lemma execute_decision_move_fails:
  assumes m: "action d = MOVE"
    and t: "target_location w d = None
            \<or> (\<exists>loc l. target_location w d = Some loc
                  \<and> map_of (locations w) (loc_id loc) = Some l \<and> is_full l)"
  shows "execute_decision env w r d = Some (update_agent w r (set_thinking d), False)"
proof -
  define w0 where "w0 = update_agent w r (set_thinking d)"
  have tl: "target_location w0 d = target_location w d"
    by (simp add: target_location_def w0_def update_agent_def)
  have l: "locations w0 = locations w" by (simp add: w0_def update_agent_def)
  have e: "execute_decision env w r d =
     (case target_location w d of
           None \<Rightarrow> Some (w0, False)
         | Some loc \<Rightarrow>
             (case move_agent w0 (agent_id (agent_objects w0 r)) (loc_id loc) of
                None \<Rightarrow> None
              | Some (w1, success) \<Rightarrow>
                  if success then do {
                    let w2 = update_agent w1 r
                               (\<lambda>a. set_action env a MOVE (Some (loc_id loc)) (Some (loc_name loc)) 5
                                      (Some (thinking d)));
                    w3 \<leftarrow> try_update_agent w2 r
                            (\<lambda>a. add_memory env (uuid4 env 0) a ([21069, 24448] @ loc_name loc) EVENT 2.0);
                    Some (w3, True)
                  }
                  else Some (w1, False)))"
    unfolding execute_decision_def Let_def tl [symmetric] w0_def using m by simp
  from t show ?thesis
  proof
    assume "target_location w d = None"
    then show ?thesis by (simp add: e w0_def)
  next
    assume "\<exists>loc l. target_location w d = Some loc
                  \<and> map_of (locations w) (loc_id loc) = Some l \<and> is_full l"
    then obtain loc l where f: "target_location w d = Some loc"
      "map_of (locations w) (loc_id loc) = Some l" "is_full l" by blast
    have "move_agent w0 (agent_id (agent_objects w0 r)) (loc_id loc) = Some (w0, False)"
      by (rule move_agent_full) (simp add: l f)
    then show ?thesis by (simp add: e f w0_def)
  qed
qed

lemma access_scored: "recency_defined now' (access now m) = recency_defined now' m"
  by (simp add: recency_defined_def get_recency_score_def access_def)

lemma score_all_Some:
  "score_all now qk ms al = Some (entries, scored) \<Longrightarrow>
   list_all (recency_defined now') (map snd al) \<Longrightarrow>
   list_all (recency_defined now') (map snd entries)"
proof (induction al arbitrary: entries scored)
  case Nil
  then show ?case by simp
next
  case (Cons p al)
  obtain k m where p: "p = (k, m)" by (cases p)
  from Cons.prems(1) p obtain score entries0 scored0 where
    s: "get_retrieval_score now (Some qk) m = Some score"
       "score_all now qk ms al = Some (entries0, scored0)"
       "entries = (if ms \<le> score then (k, access now m) # entries0 else (k, m) # entries0)"
    by (auto split: option.splits if_splits)
  from Cons.IH [OF s(2)] Cons.prems(2)
  have "list_all (recency_defined now') (map snd entries0)" by simp
  then show ?case using s(3) Cons.prems(2) p by (simp add: access_scored)
qed

lemma score_all_total:
  "list_all (recency_defined now) (map snd al) \<Longrightarrow> \<exists>r. score_all now qk ms al = Some r"
proof (induction al)
  case Nil
  then show ?case by simp
next
  case (Cons p al)
  obtain k m where p: "p = (k, m)" by (cases p)
  from Cons obtain r where r: "score_all now qk ms al = Some r" by auto
  obtain score where "get_retrieval_score now (Some qk) m = Some score"
    using Cons.prems p retrieval_score_total [of now m "Some qk"] by auto
  then show ?case using r p by (cases r) simp
qed

lemma retrieve_relevant_Some:
  assumes "retrieve_relevant now s q n ms = Some (s', found)"
  shows "by_type s' = by_type s \<and> accumulated_importance s' = accumulated_importance s
         \<and> max_memories s' = max_memories s
         \<and> last_reflection_time s' = last_reflection_time s
         \<and> (scores_defined now' s \<longrightarrow> scores_defined now' s')"
proof -
  from assms obtain entries scored where
    sa: "score_all now (extract_keywords q) ms (memories s) = Some (entries, scored)"
    and e: "s' = s\<lparr>memories := entries\<rparr>"
    by (auto simp: retrieve_relevant_def Let_def split: option.splits)
  from score_all_Some [OF sa, of now'] e show ?thesis by (simp add: scores_defined_def)
qed

lemma retrieve_relevant_total:
  "scores_defined now s \<Longrightarrow> \<exists>r. retrieve_relevant now s q n ms = Some r"
  using score_all_total [of now "memories s" "extract_keywords q" ms]
  by (auto simp: retrieve_relevant_def scores_defined_def Let_def)

lemma get_keeps_counter: "accumulated_importance (fst (get now s k)) = accumulated_importance s"
  by (simp add: get_def split: option.splits)

lemma generate_insight_result:
  assumes "types_indexed (agent_memory a)" "scores_defined (clock env) (agent_memory a)"
  shows "\<exists>a1 insight. generate_insight env a q = Some (a1, insight)
           \<and> types_indexed (agent_memory a1) \<and> scores_defined (clock env) (agent_memory a1)"
proof -
  from retrieve_relevant_total [OF assms(2), of q 10 "0.1"]
  obtain s' found where r: "retrieve_relevant (clock env) (agent_memory a) q 10 0.1 = Some (s', found)"
    by force
  from retrieve_relevant_Some [OF r, of "clock env"] assms
  have "types_indexed s'" "scores_defined (clock env) s'"
    by (simp_all add: types_indexed_def)
  then show ?thesis using r
    by (auto simp: generate_insight_def Let_def split: option.splits)
qed

lemma reflect_on_result:
  "types_indexed (agent_memory a) \<Longrightarrow> scores_defined (clock env) (agent_memory a) \<Longrightarrow>
   \<exists>a1 found n. reflect_on env k a qs = Some (a1, found, n) \<and> types_indexed (agent_memory a1)"
proof (induction qs arbitrary: k a)
  case Nil
  then show ?case by simp
next
  case (Cons q qs)
  from generate_insight_result [OF Cons.prems, of q]
  obtain a1 insight where g: "generate_insight env a q = Some (a1, insight)"
    and t1: "types_indexed (agent_memory a1)"
    and d1: "scores_defined (clock env) (agent_memory a1)" by blast
  show ?case
  proof (cases "truthy insight")
    case True
    from create_and_add_result [OF t1 d1, of "uuid4 env k" "the insight" REFLECTION 8
        "[]" None None None]
    obtain s' where c: "create_and_add (clock env) (uuid4 env k) (agent_memory a1) (the insight)
        REFLECTION 8 [] None None None
        = Some (s', new_memory (clock env) (uuid4 env k) (the insight) REFLECTION 8 [] None None None)"
      "types_indexed s'" "scores_defined (clock env) s'" by blast
    have "types_indexed (agent_memory (a1\<lparr>agent_memory := s'\<rparr>))"
      "scores_defined (clock env) (agent_memory (a1\<lparr>agent_memory := s'\<rparr>))"
      using c(2,3) by simp_all
    from Cons.IH [OF this, of "Suc k"]
    obtain a2 found n where "reflect_on env (Suc k) (a1\<lparr>agent_memory := s'\<rparr>) qs = Some (a2, found, n)"
      "types_indexed (agent_memory a2)" by blast
    then show ?thesis using g True c(1) by simp
  next
    case False
    from Cons.IH [OF t1 d1, of "Suc k"] g False show ?thesis by simp
  qed
qed

lemma run_reflection_Some:
  "run_reflection env a = Some (a', res) \<Longrightarrow> generate_questions env a \<noteq> [] \<Longrightarrow>
   accumulated_importance (agent_memory a') = 0
   \<and> last_reflection_time (agent_memory a') = Some (clock env)
   \<and> questions res = generate_questions env a"
  by (auto simp: run_reflection_def Let_def reset_accumulated_importance_def
      split: option.splits)

lemma questions_asking: "generate_questions env_asking agent_z = [[97, 63]]"
  by (simp add: generate_questions_def env_asking_def env_down_def agent_z_def store_ab_def
      retrieve_recent_def py_prefix_def example_memory_def py_strip_def py_lines_def
      py_isspace_def Let_def)

lemma questions_down: "generate_questions env_down agent_z = []"
  by (simp add: generate_questions_def env_down_def agent_z_def store_ab_def
      retrieve_recent_def py_prefix_def example_memory_def Let_def)

lemma target_nowhere: "target_location world_without_locations move_to_x = None"
  by (simp add: target_location_def world_without_locations_def move_to_x_def get_by_name_def
      truthy_def)

lemma target_full: "target_location world_with_full_location move_to_x = Some location_x"
  by (simp add: target_location_def world_with_full_location_def world_without_locations_def
      move_to_x_def get_by_name_def truthy_def location_x_def)

section \<open>Claims about the memory store\<close>

text \<open>
  C1, evaluated on the code.  The claim: \<open>retrieve_relevant\<close> increments
  \<open>access_count\<close> of a memory exactly when the memory is in the returned list, and leaves
  a memory that passes \<open>min_score\<close> but falls outside the top \<open>limit\<close> unchanged.
  The code calls \<open>access\<close> inside the scoring loop, before the list is sorted and cut:
  on the store holding \<open>"a"\<close> and \<open>"b"\<close>, the call with an empty query, limit 1 and
  \<open>min_score\<close> 0.1 returns \<open>"a"\<close> alone, and the access count of \<open>"b"\<close> goes from
  0 to 1.
\<close>

theorem retrieve_relevant_accesses_unreturned:
  "retrieve_relevant 0 store_ab [] 1 0.1 \<noteq> None
   \<and> map (mem_id \<circ> fst) (snd (the (retrieve_relevant 0 store_ab [] 1 0.1))) = [[97]]
   \<and> map_option access_count (map_of (memories store_ab) [98]) = Some 0
   \<and> map_option access_count
        (map_of (memories (fst (the (retrieve_relevant 0 store_ab [] 1 0.1)))) [98]) = Some 1"
  by (simp add: retrieve_ab) (simp add: store_ab_def access_def example_memory_def)




text \<open>
  C9: \<open>add\<close> evicts first (when the store is full) and inserts afterwards, into the
  store that eviction left; so whenever \<open>add\<close> returns, the new memory is in the store,
  whatever its score.  And \<open>add\<close> does return when the store has a list for every
  memory type and the recency of its memories can be computed at the clock reading (else
  the eviction of a full store raises before anything is inserted).
\<close>

theorem add_keeps_new_memory:
  "(add now s memory = Some (s', i) \<longrightarrow>
      i = mem_id memory
      \<and> (\<exists>s1. (if max_memories s \<le> int (length (memories s))
                 then forget_least_important now s = Some s1 else s1 = s)
              \<and> memories s' = AList.update (mem_id memory) memory (memories s1))
      \<and> map_of (memories s') (mem_id memory) = Some memory)
   \<and> (types_indexed s \<and> scores_defined now s \<longrightarrow>
        (\<exists>s2. add now s memory = Some (s2, mem_id memory)))"
proof (intro conjI impI)
  assume a: "add now s memory = Some (s', i)"
  from add_Some [OF a] show "i = mem_id memory" by simp
  from add_Some [OF a]
  show "\<exists>s1. (if max_memories s \<le> int (length (memories s))
                 then forget_least_important now s = Some s1 else s1 = s)
              \<and> memories s' = AList.update (mem_id memory) memory (memories s1)" by simp
  from add_Some [OF a] show "map_of (memories s') (mem_id memory) = Some memory" by simp
next
  assume "types_indexed s \<and> scores_defined now s"
  then show "\<exists>s2. add now s memory = Some (s2, mem_id memory)"
    using add_total by blast
qed

text \<open>The full store of capacity 1 holds a memory of importance 9; a memory of
  importance 0, the lowest score of the two, is added.\<close>

theorem add_keeps_new_memory_witness:
  "types_indexed store_full \<and> scores_defined 0 store_full
   \<and> (\<exists>s' s1. add 0 store_full (example_memory [98] 0) = Some (s', [98])
        \<and> forget_least_important 0 store_full = Some s1
        \<and> memories s' = AList.update [98] (example_memory [98] 0) (memories s1)
        \<and> map_of (memories s') [98] = Some (example_memory [98] 0))"
proof -
  have t: "types_indexed store_full"
    by (simp add: types_indexed_def store_full_def all_memory_types_def)
  have i: "mem_id (example_memory [98] 0) = [98]" by (simp add: example_memory_def)
  have f: "max_memories store_full \<le> int (length (memories store_full))"
    by (simp add: store_full_def)
  from add_keeps_new_memory [of 0 store_full "example_memory [98] 0"] t scores_defined_store_full
  obtain s2 where a: "add 0 store_full (example_memory [98] 0) = Some (s2, [98])"
    unfolding i by blast
  from add_keeps_new_memory [of 0 store_full "example_memory [98] 0" s2 "[98]"] a f
  have "\<exists>s1. forget_least_important 0 store_full = Some s1
           \<and> memories s2 = AList.update [98] (example_memory [98] 0) (memories s1)"
    "map_of (memories s2) [98] = Some (example_memory [98] 0)"
    unfolding i by simp_all
  with a t scores_defined_store_full show ?thesis by blast
qed

text \<open>
  C10: \<open>remove\<close> (called directly or by eviction) leaves \<open>accumulated_importance\<close>
  as it is and \<open>add\<close> adds the new memory's importance; so after any sequence of
  \<open>add\<close> and \<open>remove\<close> calls that returns, the counter has grown by the importances
  of all the memories added, whether they are still in the store or not.  And the sequence
  does return when the store has a list for every memory type and, at the clock reading of
  each \<open>add\<close>, the recency of every memory stored or added can be computed.
\<close>

theorem accumulated_importance_counts_every_add:
  "(run_ops s ops = Some s' \<longrightarrow>
      accumulated_importance s' = accumulated_importance s + added_importance ops)
   \<and> (types_indexed s \<and> ops_scored s ops \<longrightarrow> (\<exists>s2. run_ops s ops = Some s2))"
  using run_ops_Some run_ops_total by blast

text \<open>Two memories of importance 80 are added to a new store of capacity 1 (the second
  add evicts the first memory) and the one left is removed: the store is empty, the counter
  is 160, and an agent with this store should reflect at the default threshold 150.\<close>

theorem accumulated_importance_counts_every_add_witness:
  "types_indexed (MemoryManager_init 1 20 3)
   \<and> ops_scored (MemoryManager_init 1 20 3)
        [Add 0 (example_memory [97] 80), Add 0 (example_memory [98] 80), Remove [98]]
   \<and> (\<exists>s'. run_ops (MemoryManager_init 1 20 3)
              [Add 0 (example_memory [97] 80), Add 0 (example_memory [98] 80), Remove [98]]
            = Some s'
          \<and> accumulated_importance s' = 160
          \<and> count s' = 0
          \<and> should_reflect 150 (agent_z\<lparr>agent_memory := s'\<rparr>))"
proof -
  let ?ops = "[Add 0 (example_memory [97] 80), Add 0 (example_memory [98] 80), Remove [98]]"
  from accumulated_importance_counts_every_add [of "MemoryManager_init 1 20 3" ?ops]
    types_indexed_init [of 1 20 3] ops_scored_example
  obtain s' where r: "run_ops (MemoryManager_init 1 20 3) ?ops = Some s'" by blast
  from accumulated_importance_counts_every_add [of "MemoryManager_init 1 20 3" ?ops s'] r
  have "accumulated_importance s' = accumulated_importance (MemoryManager_init 1 20 3)
       + added_importance ?ops" by blast
  then have a: "accumulated_importance s' = 160"
    by (simp add: MemoryManager_init_def example_memory_def)
  from r have "s' = (MemoryManager_init 1 20 3)\<lparr>accumulated_importance := 160\<rparr>"
    unfolding two_adds_and_a_remove by simp
  then have c: "count s' = 0" by (simp add: count_def MemoryManager_init_def)
  have "should_reflect 150 (agent_z\<lparr>agent_memory := s'\<rparr>)"
    using a by (simp add: should_reflect_def)
  with r a c types_indexed_init [of 1 20 3] ops_scored_example show ?thesis by blast
qed

section \<open>Claims about plans\<close>

text \<open>
  C8: \<open>get_current_block\<close> returns the first block, in the order \<open>current_tasks\<close>,
  \<open>hourly_chunks\<close>, \<open>broad_strokes\<close>, whose interval from \<open>start_time\<close>
  (included) to \<open>end_time\<close> (excluded) contains the time as \<open>"HH:MM"\<close>; it returns
  \<open>None\<close> exactly when no block of the three lists contains the time; and at a time
  that an hourly chunk contains (and no current task, which would come first) it returns the
  first such hourly chunk, whatever the broad strokes are.
\<close>

theorem get_current_block_finest_first:
  "get_current_block plan t =
     find (covers (strftime_HM t)) (current_tasks plan @ hourly_chunks plan @ broad_strokes plan)
   \<and> (get_current_block plan t = None \<longleftrightarrow>
        (\<forall>b \<in> set (current_tasks plan @ hourly_chunks plan @ broad_strokes plan).
           \<not> covers (strftime_HM t) b))
   \<and> ((\<forall>b \<in> set (current_tasks plan). \<not> covers (strftime_HM t) b)
        \<and> (\<exists>c \<in> set (hourly_chunks plan). covers (strftime_HM t) c)
        \<longrightarrow> get_current_block plan t = find (covers (strftime_HM t)) (hourly_chunks plan)
            \<and> (\<exists>c \<in> set (hourly_chunks plan). get_current_block plan t = Some c))"
proof (intro conjI impI)
  show e: "get_current_block plan t =
     find (covers (strftime_HM t)) (current_tasks plan @ hourly_chunks plan @ broad_strokes plan)"
    by (rule get_current_block_find)
  show "get_current_block plan t = None \<longleftrightarrow>
        (\<forall>b \<in> set (current_tasks plan @ hourly_chunks plan @ broad_strokes plan).
           \<not> covers (strftime_HM t) b)"
    unfolding e by (auto simp: find_None_iff)
next
  assume a: "(\<forall>b \<in> set (current_tasks plan). \<not> covers (strftime_HM t) b)
        \<and> (\<exists>c \<in> set (hourly_chunks plan). covers (strftime_HM t) c)"
  then have n: "find (covers (strftime_HM t)) (current_tasks plan) = None"
    by (simp add: find_None_iff)
  from a obtain c where c: "find (covers (strftime_HM t)) (hourly_chunks plan) = Some c"
    by (cases "find (covers (strftime_HM t)) (hourly_chunks plan)") (auto simp: find_None_iff)
  show g: "get_current_block plan t = find (covers (strftime_HM t)) (hourly_chunks plan)"
    by (simp add: get_current_block_find find_append_case n c)
  have "c \<in> set (hourly_chunks plan)" using c by (auto simp: find_Some_iff)
  then show "\<exists>c \<in> set (hourly_chunks plan). get_current_block plan t = Some c"
    using g c by auto
qed

text \<open>At 09:30 the hourly chunk 09:00-10:00 and the broad stroke 09:00-12:00 both contain
  the time; the chunk is returned.\<close>

theorem get_current_block_finest_first_witness:
  "current_tasks example_plan = []
   \<and> hourly_chunks example_plan = [block_9_10]
   \<and> broad_strokes example_plan = [block_9_12]
   \<and> covers (strftime_HM half_past_nine) block_9_10
   \<and> covers (strftime_HM half_past_nine) block_9_12
   \<and> get_current_block example_plan half_past_nine = Some block_9_10"
proof -
  have h: "(\<forall>b \<in> set (current_tasks example_plan). \<not> covers (strftime_HM half_past_nine) b)
   \<and> (\<exists>c \<in> set (hourly_chunks example_plan). covers (strftime_HM half_past_nine) c)"
    by (simp add: example_plan_def strftime_930 covers_930_block_9_10)
  have b: "covers (strftime_HM half_past_nine) block_9_12"
    by (simp add: strftime_930 covers_def block_9_12_def)
  from get_current_block_finest_first [of example_plan half_past_nine] h
  have "get_current_block example_plan half_past_nine
          = find (covers (strftime_HM half_past_nine)) (hourly_chunks example_plan)" by blast
  then show ?thesis using b by (simp add: example_plan_def strftime_930 covers_930_block_9_10)
qed

section \<open>Claims about reactions, reflection and decisions\<close>

text \<open>
  C2, as stated, fails: \<open>run_reflection\<close> is not the only operation that sets
  \<open>accumulated_importance\<close> to 0; \<open>MemoryManager.clear\<close> does too.
\<close>

theorem clear_resets_accumulated_importance:
  "accumulated_importance store_ab = 10 \<and> accumulated_importance (clear store_ab) = 0"
  by (simp add: clear_def store_ab_def)

text \<open>
  C2, amended: a \<open>run_reflection\<close> that gets no question returns the empty result and
  leaves the agent, so the counter, as it was.  One that gets at least one question line
  leaves \<open>accumulated_importance\<close> at 0 (and \<open>last_reflection_time\<close> at the clock
  reading) whenever it returns; and it returns when the store has a list for every memory
  type and the recency of its memories can be computed at the clock reading (else the
  retrieval for an insight raises before the reset).  Of the other operations of the store
  only \<open>clear\<close> sets the counter to 0: \<open>remove\<close>, \<open>get\<close> and
  \<open>retrieve_relevant\<close> leave it as it is (\<open>retrieve_recent\<close> changes nothing at
  all) and \<open>add\<close> adds the importance of the new memory to it.
\<close>

theorem run_reflection_resets_or_aborts:
  "(generate_questions env a = [] \<longrightarrow>
      run_reflection env a = Some (a, \<lparr>questions = [], insights = [], memories_created = 0\<rparr>))
   \<and> (generate_questions env a \<noteq> [] \<and> run_reflection env a = Some (a', res) \<longrightarrow>
        accumulated_importance (agent_memory a') = 0
        \<and> last_reflection_time (agent_memory a') = Some (clock env)
        \<and> questions res = generate_questions env a)
   \<and> (generate_questions env a \<noteq> [] \<and> types_indexed (agent_memory a)
        \<and> scores_defined (clock env) (agent_memory a) \<longrightarrow>
        (\<exists>a2 res2. run_reflection env a = Some (a2, res2)))
   \<and> (remove s k = Some (s1, b) \<longrightarrow> accumulated_importance s1 = accumulated_importance s)
   \<and> (add now s memory = Some (s2, i) \<longrightarrow>
        accumulated_importance s2 = accumulated_importance s + importance memory)
   \<and> (retrieve_relevant now s q n min_score = Some (s3, found) \<longrightarrow>
        accumulated_importance s3 = accumulated_importance s)
   \<and> accumulated_importance (fst (get now s k)) = accumulated_importance s
   \<and> accumulated_importance (clear s) = 0"
proof (intro conjI impI)
  show "generate_questions env a = [] \<Longrightarrow>
      run_reflection env a = Some (a, \<lparr>questions = [], insights = [], memories_created = 0\<rparr>)"
    by (simp add: run_reflection_def)
next
  assume h: "generate_questions env a \<noteq> [] \<and> run_reflection env a = Some (a', res)"
  from run_reflection_Some [of env a a' res] h
  show "accumulated_importance (agent_memory a') = 0"
    "last_reflection_time (agent_memory a') = Some (clock env)"
    "questions res = generate_questions env a" by simp_all
next
  assume h: "generate_questions env a \<noteq> [] \<and> types_indexed (agent_memory a)
        \<and> scores_defined (clock env) (agent_memory a)"
  from reflect_on_result [of a env 0 "generate_questions env a"] h
  obtain a1 found0 created where "reflect_on env 0 a (generate_questions env a) = Some (a1, found0, created)"
    by blast
  then show "\<exists>a2 res2. run_reflection env a = Some (a2, res2)"
    using h by (simp add: run_reflection_def Let_def)
next
  assume "remove s k = Some (s1, b)"
  from remove_Some [OF this] show "accumulated_importance s1 = accumulated_importance s" by simp
next
  assume "add now s memory = Some (s2, i)"
  from add_Some [OF this]
  show "accumulated_importance s2 = accumulated_importance s + importance memory" by simp
next
  assume "retrieve_relevant now s q n min_score = Some (s3, found)"
  from retrieve_relevant_Some [OF this, of now]
  show "accumulated_importance s3 = accumulated_importance s" by simp
next
  show "accumulated_importance (fst (get now s k)) = accumulated_importance s"
    by (rule get_keeps_counter)
  show "accumulated_importance (clear s) = 0" by (simp add: clear_def)
qed

text \<open>The agent \<open>z\<close> has accumulated 10.  With the inference service down the
  reflection aborts; with a service answering \<open>a?\<close> it runs and the counter is 0.\<close>

theorem run_reflection_resets_or_aborts_witness:
  "types_indexed (agent_memory agent_z)
   \<and> scores_defined (clock env_asking) (agent_memory agent_z)
   \<and> accumulated_importance (agent_memory agent_z) = 10
   \<and> generate_questions env_down agent_z = []
   \<and> run_reflection env_down agent_z
       = Some (agent_z, \<lparr>questions = [], insights = [], memories_created = 0\<rparr>)
   \<and> generate_questions env_asking agent_z = [[97, 63]]
   \<and> (\<exists>a' res. run_reflection env_asking agent_z = Some (a', res)
         \<and> accumulated_importance (agent_memory a') = 0
         \<and> questions res = [[97, 63]])"
proof -
  have c: "clock env_asking = 0" by (simp add: env_asking_def env_down_def)
  have sd: "scores_defined (clock env_asking) (agent_memory agent_z)"
    unfolding c by (rule scores_defined_agent_z)
  have i: "accumulated_importance (agent_memory agent_z) = 10"
    by (simp add: agent_z_def store_ab_def)
  have d: "run_reflection env_down agent_z
       = Some (agent_z, \<lparr>questions = [], insights = [], memories_created = 0\<rparr>)"
    using run_reflection_resets_or_aborts [of env_down agent_z] by (simp add: questions_down)
  have ne: "generate_questions env_asking agent_z \<noteq> []" by (simp add: questions_asking)
  from run_reflection_resets_or_aborts [of env_asking agent_z] ne types_indexed_agent_z sd
  obtain a2 res2 where r: "run_reflection env_asking agent_z = Some (a2, res2)" by blast
  from run_reflection_resets_or_aborts [of env_asking agent_z a2 res2] ne r
  have "accumulated_importance (agent_memory a2) = 0"
    "questions res2 = generate_questions env_asking agent_z" by blast+
  then have a: "\<exists>a' res. run_reflection env_asking agent_z = Some (a', res)
         \<and> accumulated_importance (agent_memory a') = 0
         \<and> questions res = [[97, 63]]"
    using r by (simp add: questions_asking)
  show ?thesis
    using types_indexed_agent_z sd i d a questions_down questions_asking by blast
qed

text \<open>
  C4, evaluated on the code.  The claim: a Note reaction acted on in the per-agent pipeline
  writes an Observation memory of importance 4.  In \<open>_process_agent\<close> the Note
  branch writes the reaction text as an \<open>EVENT\<close> memory of importance 3; it is
  \<open>execute_reaction\<close>, which the pipeline calls for Interrupt only, that writes an
  \<open>OBSERVATION\<close> of importance 4 (with the prefix \<open>zhuyi dao\<close>).  Neither
  touches the current action.
\<close>

theorem note_in_pipeline_is_event:
  "process_agent_reaction env_down agent_z note_x \<noteq> None
   \<and> snd (the (process_agent_reaction env_down agent_z note_x)) = False
   \<and> map_option (\<lambda>m. (mem_type m, importance m, content m))
        (map_of (memories (agent_memory (fst (the (process_agent_reaction env_down agent_z note_x)))))
           [117, 48])
       = Some (EVENT, 3, [120])
   \<and> execute_reaction env_down agent_z note_x \<noteq> None
   \<and> map_option (\<lambda>m. (mem_type m, importance m, content m))
        (map_of (memories (agent_memory (the (execute_reaction env_down agent_z note_x)))) [117, 48])
       = Some (OBSERVATION, 4, [27880, 24847, 21040, 65306, 120])"
proof -
  have u: "uuid4 env_down 0 = [117, 48]" by (simp add: env_down_def)
  have sd: "scores_defined (clock env_down) (agent_memory agent_z)"
    using scores_defined_agent_z by (simp add: env_down_def)
  from add_memory_result [OF types_indexed_agent_z sd, of "[117, 48]" "[120]" EVENT 3]
  obtain s1 where s1: "add_memory env_down [117, 48] agent_z [120] EVENT 3
                         = Some (agent_z\<lparr>agent_memory := s1\<rparr>)"
    "map_of (memories s1) [117, 48]
       = Some (new_memory (clock env_down) [117, 48] [120] EVENT 3 []
                 (location_name (position agent_z)) None None)" by blast
  from add_memory_result [OF types_indexed_agent_z sd, of "[117, 48]"
      "[27880, 24847, 21040, 65306, 120]" OBSERVATION 4]
  obtain s2 where s2: "add_memory env_down [117, 48] agent_z [27880, 24847, 21040, 65306, 120]
                         OBSERVATION 4 = Some (agent_z\<lparr>agent_memory := s2\<rparr>)"
    "map_of (memories s2) [117, 48]
       = Some (new_memory (clock env_down) [117, 48] [27880, 24847, 21040, 65306, 120]
                 OBSERVATION 4 [] (location_name (position agent_z)) None None)" by blast
  have p: "process_agent_reaction env_down agent_z note_x
             = Some (agent_z\<lparr>agent_memory := s1\<rparr>, False)"
    using s1(1) by (simp add: process_agent_reaction_def note_x_def truthy_def u)
  have e: "execute_reaction env_down agent_z note_x = Some (agent_z\<lparr>agent_memory := s2\<rparr>)"
    using s2(1) by (simp add: execute_reaction_def note_x_def truthy_def u)
  show ?thesis
    by (simp add: p e s1(2) s2(2) new_memory_fields)
qed

text \<open>
  C5, as stated, fails: a Move to a name that no location has returns \<open>False\<close>, but
  the agent's \<open>current_action.thinking\<close> is overwritten with the decision's.
\<close>

theorem failed_move_overwrites_thinking:
  "action move_to_x = MOVE
   \<and> target_location world_without_locations move_to_x = None
   \<and> map_option snd (execute_decision env_down world_without_locations 0 move_to_x) = Some False
   \<and> action_thinking (current_action (agent_objects world_without_locations 0)) = None
   \<and> action_thinking (current_action (agent_objects
        (fst (the (execute_decision env_down world_without_locations 0 move_to_x))) 0)) = Some [116]"
  using execute_decision_move_fails [of move_to_x world_without_locations env_down 0] target_nowhere
  by (simp add: move_to_x_def update_agent_def set_thinking_def world_without_locations_def agent_z_def)

text \<open>
  C5, amended: when the target name is not found, or the location found is full,
  \<open>execute_decision\<close> returns \<open>False\<close> and the world after the call is the world
  before it but for \<open>current_action.thinking\<close> of the agent, set to the decision's
  thinking.
\<close>

theorem failed_move_changes_only_thinking:
  "action d = MOVE \<Longrightarrow>
   target_location w d = None
     \<or> (\<exists>loc l. target_location w d = Some loc
           \<and> map_of (locations w) (loc_id loc) = Some l \<and> is_full l) \<Longrightarrow>
   execute_decision env w r d = Some (update_agent w r (set_thinking d), False)"
  by (rule execute_decision_move_fails)

text \<open>A Move to \<open>x\<close> in the world with no location, and in the world where
  \<open>x\<close> has capacity 0.\<close>

theorem failed_move_changes_only_thinking_witness:
  "action move_to_x = MOVE
   \<and> target_location world_without_locations move_to_x = None
   \<and> execute_decision env_down world_without_locations 0 move_to_x
       = Some (update_agent world_without_locations 0 (set_thinking move_to_x), False)
   \<and> target_location world_with_full_location move_to_x = Some location_x
   \<and> map_of (locations world_with_full_location) (loc_id location_x) = Some location_x
   \<and> is_full location_x
   \<and> execute_decision env_down world_with_full_location 0 move_to_x
       = Some (update_agent world_with_full_location 0 (set_thinking move_to_x), False)"
proof -
  have m: "action move_to_x = MOVE" by (simp add: move_to_x_def)
  have f: "is_full location_x" by (simp add: is_full_def location_x_def)
  have r: "map_of (locations world_with_full_location) (loc_id location_x) = Some location_x"
    by (simp add: world_with_full_location_def location_x_def)
  have "execute_decision env_down world_without_locations 0 move_to_x
       = Some (update_agent world_without_locations 0 (set_thinking move_to_x), False)"
    using failed_move_changes_only_thinking [OF m, of world_without_locations env_down 0] target_nowhere by simp
  moreover have "execute_decision env_down world_with_full_location 0 move_to_x
       = Some (update_agent world_with_full_location 0 (set_thinking move_to_x), False)"
    using failed_move_changes_only_thinking [OF m, of world_with_full_location env_down 0] target_full r f by blast
  ultimately show ?thesis using m f r target_nowhere target_full by simp
qed

text \<open>
  C6: for an empty perception \<open>should_react\<close> returns Continue with
  \<open>should_react\<close> false, and for one that is addressed it returns Interrupt with
  \<open>should_react\<close> true and the reaction \<open>huiying\<close> followed by the addresser; in both
  cases the result is the same for every inference service (and every agent and plan
  block): no inference call decides it.
\<close>

theorem should_react_short_circuits:
  "(is_empty p \<longrightarrow>
      should_react env a p current_plan =
        \<lparr>decision_should_react = False, reaction_type = CONTINUE, reaction = None,
         reason = [27809, 26377, 38656, 35201, 21453, 24212, 30340, 20107, 24773]\<rparr>)
   \<and> (being_addressed p \<longrightarrow>
      should_react env a p current_plan =
        \<lparr>decision_should_react = True, reaction_type = INTERRUPT,
         reaction = Some ([22238, 24212] @ format_opt (addressed_by p)),
         reason = format_opt (addressed_by p) @ [22312, 31561, 24453, 22238, 24212]\<rparr>)
   \<and> (is_empty p \<or> being_addressed p \<longrightarrow>
      should_react env a p current_plan = should_react env' a' p current_plan')"
  by (auto simp: should_react_def is_empty_def)

text \<open>Addressed by Li Si, the reaction is \<open>huiying\<close> and \<open>Li Si\<close>, also when
  the inference service would answer.\<close>

theorem should_react_short_circuits_witness:
  "is_empty nothing_perceived
   \<and> reaction_type (should_react env_down agent_z nothing_perceived None) = CONTINUE
   \<and> decision_should_react (should_react env_down agent_z nothing_perceived None) = False
   \<and> being_addressed addressed_by_li_si
   \<and> reaction_type (should_react env_asking agent_z addressed_by_li_si None) = INTERRUPT
   \<and> decision_should_react (should_react env_asking agent_z addressed_by_li_si None) = True
   \<and> reaction (should_react env_asking agent_z addressed_by_li_si None)
       = Some [22238, 24212, 26446, 22235]"
proof -
  have e: "is_empty nothing_perceived" by (simp add: is_empty_def nothing_perceived_def)
  have b: "being_addressed addressed_by_li_si" by (simp add: addressed_by_li_si_def)
  have f: "format_opt (addressed_by addressed_by_li_si) = [26446, 22235]"
    by (simp add: addressed_by_li_si_def format_opt_def)
  from should_react_short_circuits [of nothing_perceived env_down agent_z None env_down agent_z None] e
    should_react_short_circuits [of addressed_by_li_si env_asking agent_z None env_down agent_z None] b f
  show ?thesis by simp
qed

text \<open>
  C7: when every call of the inference service for a new plan raises or yields no JSON
  object, \<open>replan_from_now\<close> returns the empty list, and \<open>execute_reaction\<close>,
  whenever it returns, leaves the agent's daily plan (so its \<open>broad_strokes\<close>) as it
  was; it does return when the agent's store has a list for every memory type and the
  recency of its memories can be computed at the clock reading.
\<close>

theorem failed_replan_keeps_plan:
  "(\<forall>q. replan_llm env q = ReplanRaised \<or> replan_llm env q = ReplanNoJson) \<Longrightarrow>
   replan_from_now env a t what = []
   \<and> (execute_reaction env a d = Some a' \<longrightarrow> daily_plan a' = daily_plan a)
   \<and> (types_indexed (agent_memory a) \<and> scores_defined (clock env) (agent_memory a) \<longrightarrow>
        (\<exists>a2. execute_reaction env a d = Some a2 \<and> daily_plan a2 = daily_plan a))"
  using replan_failure [of env] execute_reaction_plan [of a env d]
    execute_reaction_Some_plan [of env a d a'] by blast

text \<open>The agent \<open>z\<close>, interrupted while the inference service is down, keeps the
  example plan.\<close>

theorem failed_replan_keeps_plan_witness:
  "replan_llm env_down (REPLAN_FROM_NOW [] [] [] []) = ReplanRaised
   \<and> replan_from_now env_down agent_z half_past_nine [120] = []
   \<and> types_indexed (agent_memory agent_z)
   \<and> scores_defined (clock env_down) (agent_memory agent_z)
   \<and> reaction_type interrupt_x = INTERRUPT
   \<and> (\<exists>a'. execute_reaction env_down agent_z interrupt_x = Some a'
          \<and> daily_plan a' = Some example_plan)"
proof -
  have h: "\<forall>q. replan_llm env_down q = ReplanRaised \<or> replan_llm env_down q = ReplanNoJson"
    by (simp add: env_down_def)
  have sd: "scores_defined (clock env_down) (agent_memory agent_z)"
    using scores_defined_agent_z by (simp add: env_down_def)
  from failed_replan_keeps_plan [OF h, of agent_z half_past_nine "[120]" interrupt_x]
    types_indexed_agent_z sd
  have "replan_from_now env_down agent_z half_past_nine [120] = []"
    "\<exists>a2. execute_reaction env_down agent_z interrupt_x = Some a2
       \<and> daily_plan a2 = daily_plan agent_z" by blast+
  then show ?thesis using types_indexed_agent_z sd
    by (simp add: env_down_def agent_z_def interrupt_x_def)
qed

end
